theory Spec2Isabelle
  imports Main
begin

section \<open>Data model (app/models)\<close>

text \<open>
  The enumerations of \<^verbatim>\<open>app/models/enums.py\<close>. Each is a Python \<^verbatim>\<open>str\<close> enum, so
  a member compares equal to its value: \<^verbatim>\<open>document.doc_kind == "unknown"\<close> is the test
  \<open>doc_kind document = UNKNOWN\<close>, and the literals \<^verbatim>\<open>"received"\<close>, \<^verbatim>\<open>"missing"\<close> and
  \<^verbatim>\<open>"done"\<close> of the service stand for \<open>RECEIVED\<close>, \<open>MISSING\<close> and \<open>DONE\<close>.
\<close>

datatype ClientComplexity = SIMPLE | AVERAGE | COMPLEX

datatype IntakeStatus = OPEN | DONE

datatype DocKind = T4 | RECEIPT | ID | UNKNOWN

datatype ChecklistStatus = MISSING | RECEIVED

text \<open>
  The four tables. Identifiers are the 36-character UUID strings of the source; the
  timestamps \<^verbatim>\<open>created_at\<close> and \<^verbatim>\<open>uploaded_at\<close> are read by no operation and are left
  out. The fields \<^verbatim>\<open>id\<close>, \<^verbatim>\<open>intake_id\<close>, \<^verbatim>\<open>doc_kind\<close> and \<^verbatim>\<open>status\<close> occur in several
  classes and carry a prefix here: \<open>c_\<close> (Client), \<open>i_\<close> (Intake), \<open>ci_\<close> (ChecklistItem),
  \<open>d_\<close> (Document). The JSON column \<^verbatim>\<open>extracted_data\<close> is nullable and otherwise holds the
  dictionary of extracted fields, each of which may be null, a string or a nested dictionary.
\<close>

datatype json = JNull | JStr string | JObj "(string \<times> json) list"

type_synonym field_map = "(string \<times> json) list"

record Client =
  c_id :: string
  c_name :: string
  c_email :: string
  complexity :: ClientComplexity

record Intake =
  i_id :: string
  i_client_id :: string
  fiscal_year :: int
  i_status :: IntakeStatus

record ChecklistItem =
  ci_id :: string
  ci_intake_id :: string
  ci_doc_kind :: DocKind
  ci_status :: ChecklistStatus
  quantity_expected :: int
  quantity_received :: int

record Document =
  d_id :: string
  d_intake_id :: string
  filename :: string
  sha256 :: string
  mime_type :: string
  size_bytes :: int
  stored_path :: string
  doc_kind :: DocKind
  extracted_data :: "field_map option"

section \<open>The database session\<close>

text \<open>
  A database is the rows of the four tables, in insertion order. A session (the
  \<^verbatim>\<open>AsyncSession\<close> every operation receives) has the committed rows (\<open>store\<close>), the rows as
  the running transaction sees them (\<open>work\<close>: queries read them, attribute assignments
  and inserts change them) and \<open>fail_after\<close>, which says how the database behaves:
  \<open>None\<close> is a database that never fails, \<open>Some n\<close> one whose next \<open>n\<close> round trips succeed
  and whose round trip after those raises. Every \<^verbatim>\<open>await db.execute\<close>, \<^verbatim>\<open>db.commit\<close>,
  \<^verbatim>\<open>db.flush\<close> and \<^verbatim>\<open>db.refresh\<close> of the source is one round trip. What the request
  scope does with the session once an endpoint has returned (\<^verbatim>\<open>get_db\<close>) is outside the
  operations modelled here.
\<close>

record Db =
  clients :: "Client list"
  intakes :: "Intake list"
  checklist_items :: "ChecklistItem list"
  documents :: "Document list"

record Session =
  store :: Db
  work :: Db
  fail_after :: "nat option"

datatype error =
    HTTPException nat
  | MultipleResultsFound
  | OperationalError
  | IntegrityError
  | NoResultFound
  | ValueError
  | ExternalFailure

type_synonym 'a outcome = "(error + 'a) \<times> Session"

text \<open>Exceptions propagate: the rest of a function runs only after a call that returned.\<close>

definition and_then :: "'a outcome \<Rightarrow> ('a \<Rightarrow> Session \<Rightarrow> 'b outcome) \<Rightarrow> 'b outcome" where
  "and_then r f = (case r of (Inl e, s) \<Rightarrow> (Inl e, s) | (Inr x, s) \<Rightarrow> f x s)"

definition round_trip :: "Session \<Rightarrow> unit outcome" where
  "round_trip s =
     (case fail_after s of
        None \<Rightarrow> (Inr (), s)
      | Some 0 \<Rightarrow> (Inl OperationalError, s)
      | Some (Suc n) \<Rightarrow> (Inr (), s\<lparr>fail_after := Some n\<rparr>))"

text \<open>\<^verbatim>\<open>await db.execute(select(...))\<close>: the caller reads the rows from \<open>work\<close>.\<close>

definition execute :: "Session \<Rightarrow> unit outcome" where
  "execute s = round_trip s"

text \<open>
  \<^verbatim>\<open>await db.commit()\<close>: the transaction's rows become the committed rows. A commit that
  raises writes nothing and the transaction is rolled back.
\<close>

definition commit :: "Session \<Rightarrow> unit outcome" where
  "commit s =
     (case round_trip s of
        (Inl e, s') \<Rightarrow> (Inl e, s'\<lparr>work := store s'\<rparr>)
      | (Inr u, s') \<Rightarrow> (Inr (), s'\<lparr>store := work s'\<rparr>))"

text \<open>\<^verbatim>\<open>result.scalar_one_or_none()\<close>: no row, the one row, or MultipleResultsFound.\<close>

fun scalar_one_or_none :: "'a list \<Rightarrow> error + 'a option" where
  "scalar_one_or_none [] = Inr None"
| "scalar_one_or_none [x] = Inr (Some x)"
| "scalar_one_or_none (x # y # zs) = Inl MultipleResultsFound"

section \<open>Checklist service (app/services/checklist\_service.py)\<close>

text \<open>Python truthiness of \<^verbatim>\<open>document.extracted_data\<close>: \<^verbatim>\<open>None\<close> and \<^verbatim>\<open>{}\<close> are falsy.\<close>

fun truthy :: "field_map option \<Rightarrow> bool" where
  "truthy None = False"
| "truthy (Some []) = False"
| "truthy (Some (f # fs)) = True"

text \<open>
  The two \<^verbatim>\<open>where\<close> clauses of \<^verbatim>\<open>update_checklist_for_document\<close>. The second is the SQL test
  \<^verbatim>\<open>extracted_data IS NOT NULL\<close>. In the rows that the operations write the column is SQL
  null exactly when the attribute is \<^verbatim>\<open>None\<close>: the upload leaves the column out and the
  extraction assigns a dictionary; no operation assigns \<^verbatim>\<open>None\<close>, which the JSON column
  would store as the JSON value null, not as SQL null. So \<open>None\<close> stands for SQL null.
\<close>

definition item_matches :: "Document \<Rightarrow> ChecklistItem \<Rightarrow> bool" where
  "item_matches document c \<longleftrightarrow>
     ci_intake_id c = d_intake_id document \<and> ci_doc_kind c = doc_kind document"

definition counted :: "Document \<Rightarrow> Document \<Rightarrow> bool" where
  "counted document d \<longleftrightarrow>
     d_intake_id d = d_intake_id document \<and> doc_kind d = doc_kind document
     \<and> extracted_data d \<noteq> None"

definition set_intake_status :: "string \<Rightarrow> IntakeStatus \<Rightarrow> Db \<Rightarrow> Db" where
  "set_intake_status intake_id st db =
     db\<lparr>intakes := map (\<lambda>i. if i_id i = intake_id then i\<lparr>i_status := st\<rparr> else i) (intakes db)\<rparr>"

definition check_and_update_intake_status :: "Session \<Rightarrow> string \<Rightarrow> unit outcome" where
  "check_and_update_intake_status db intake_id =
     and_then (execute db) (\<lambda>_ db.
       case scalar_one_or_none (filter (\<lambda>i. i_id i = intake_id) (intakes (work db))) of
         Inl e \<Rightarrow> (Inl e, db)
       | Inr None \<Rightarrow> (Inr (), db)
       | Inr (Some intake) \<Rightarrow>
           and_then (execute db) (\<lambda>_ db.
             let missing_items =
                   length (filter (\<lambda>c. ci_intake_id c = intake_id \<and> ci_status c = MISSING)
                             (checklist_items (work db)))
             in if missing_items = 0
                then commit (db\<lparr>work := set_intake_status intake_id DONE (work db)\<rparr>)
                else (Inr (), db)))"

text \<open>
  The row that the first query returned is the only row that satisfies its \<^verbatim>\<open>where\<close>
  clause, so the assignments to \<^verbatim>\<open>checklist_item\<close> replace exactly that row.
\<close>

definition update_checklist_for_document :: "Session \<Rightarrow> Document \<Rightarrow> unit outcome" where
  "update_checklist_for_document db document =
     (if doc_kind document = UNKNOWN \<or> \<not> truthy (extracted_data document) then (Inr (), db)
      else
        and_then (execute db) (\<lambda>_ db.
          case scalar_one_or_none (filter (item_matches document) (checklist_items (work db))) of
            Inl e \<Rightarrow> (Inl e, db)
          | Inr None \<Rightarrow> (Inr (), db)
          | Inr (Some checklist_item) \<Rightarrow>
              and_then (execute db) (\<lambda>_ db.
                let extracted_count = int (length (filter (counted document) (documents (work db))));
                    item1 = checklist_item\<lparr>quantity_received := extracted_count\<rparr>;
                    item2 = (if quantity_received item1 \<ge> quantity_expected item1
                             then item1\<lparr>ci_status := RECEIVED\<rparr> else item1);
                    rows = map (\<lambda>c. if item_matches document c then item2 else c)
                             (checklist_items (work db))
                in and_then (commit (db\<lparr>work := (work db)\<lparr>checklist_items := rows\<rparr>\<rparr>)) (\<lambda>_ db.
                     check_and_update_intake_status db (d_intake_id document)))))"

section \<open>Models: derived properties (app/models)\<close>

text \<open>\<^verbatim>\<open>Client.expected_document_count\<close> and \<^verbatim>\<open>Client.expected_receipt_count\<close>.\<close>

definition expected_document_count :: "Client \<Rightarrow> int" where
  "expected_document_count self =
     (if complexity self = SIMPLE then 2
      else if complexity self = AVERAGE then 4
      else if complexity self = COMPLEX then 8
      else 0)"

definition expected_receipt_count :: "Client \<Rightarrow> int" where
  "expected_receipt_count self =
     (if complexity self = SIMPLE then 0
      else if complexity self = AVERAGE then 2
      else if complexity self = COMPLEX then 5
      else 0)"

text \<open>
  \<^verbatim>\<open>Intake.is_complete\<close>. The relationship \<^verbatim>\<open>self.checklist_items\<close> is the rows of the
  checklist table whose \<^verbatim>\<open>intake_id\<close> is the intake's id.
\<close>

definition intake_is_complete :: "Db \<Rightarrow> Intake \<Rightarrow> bool" where
  "intake_is_complete db self =
     (let items = filter (\<lambda>c. ci_intake_id c = i_id self) (checklist_items db)
      in if items = [] then False
         else list_all (\<lambda>item. ci_status item = RECEIVED) items)"

section \<open>Intake endpoints (app/api/intakes.py) and file handling (app/utils/file\_handling.py)\<close>

text \<open>
  \<^verbatim>\<open>db.flush()\<close> and \<^verbatim>\<open>db.refresh(obj)\<close> are round trips; a flush that raises rolls the
  transaction back. Rows get their \<^verbatim>\<open>uuid4\<close> identifiers from the caller of the model;
  a collision of two such identifiers is not modelled.
\<close>

definition rollback :: "Session \<Rightarrow> Session" where
  "rollback s = s\<lparr>work := store s\<rparr>"

definition flush :: "Session \<Rightarrow> unit outcome" where
  "flush s = (case round_trip s of (Inl e, s') \<Rightarrow> (Inl e, rollback s') | (Inr u, s') \<Rightarrow> (Inr (), s'))"

definition refresh :: "Session \<Rightarrow> unit outcome" where
  "refresh s = round_trip s"

record IntakeCreate =
  client_id :: string
  ic_fiscal_year :: int

text \<open>The list \<^verbatim>\<open>checklist_items\<close> that \<^verbatim>\<open>create_intake\<close> builds (lines 83 to 110).\<close>

definition initial_checklist_items :: "(DocKind \<Rightarrow> string) \<Rightarrow> string \<Rightarrow> Client \<Rightarrow> ChecklistItem list" where
  "initial_checklist_items item_ids new_intake_id client =
     (let checklist_items =
            [\<lparr>ci_id = item_ids T4, ci_intake_id = new_intake_id, ci_doc_kind = T4,
              ci_status = MISSING, quantity_expected = 1, quantity_received = 0\<rparr>,
             \<lparr>ci_id = item_ids ID, ci_intake_id = new_intake_id, ci_doc_kind = ID,
              ci_status = MISSING, quantity_expected = 1, quantity_received = 0\<rparr>];
          receipt_count = expected_receipt_count client
      in if receipt_count > 0
         then checklist_items @
            [\<lparr>ci_id = item_ids RECEIPT, ci_intake_id = new_intake_id, ci_doc_kind = RECEIPT,
              ci_status = MISSING, quantity_expected = receipt_count, quantity_received = 0\<rparr>]
         else checklist_items)"

text \<open>\<^verbatim>\<open>result.scalar_one()\<close>: exactly one row, or an exception.\<close>

fun scalar_one :: "'a list \<Rightarrow> error + 'a" where
  "scalar_one [] = Inl NoResultFound"
| "scalar_one [x] = Inr x"
| "scalar_one (x # y # zs) = Inl MultipleResultsFound"

definition create_intake ::
    "string \<Rightarrow> (DocKind \<Rightarrow> string) \<Rightarrow> IntakeCreate \<Rightarrow> Session \<Rightarrow> Intake outcome" where
  "create_intake new_id item_ids intake_data db =
     and_then (execute db) (\<lambda>_ db.
       case scalar_one_or_none (filter (\<lambda>c. c_id c = client_id intake_data) (clients (work db))) of
         Inl e \<Rightarrow> (Inl e, db)
       | Inr None \<Rightarrow> (Inl (HTTPException 404), db)
       | Inr (Some client) \<Rightarrow>
           and_then (execute db) (\<lambda>_ db.
             case scalar_one_or_none
                    (filter (\<lambda>i. i_client_id i = client_id intake_data
                                  \<and> fiscal_year i = ic_fiscal_year intake_data) (intakes (work db))) of
               Inl e \<Rightarrow> (Inl e, db)
             | Inr (Some existing_intake) \<Rightarrow> (Inl (HTTPException 409), db)
             | Inr None \<Rightarrow>
                 (let new_intake = \<lparr>i_id = new_id, i_client_id = client_id intake_data,
                                     fiscal_year = ic_fiscal_year intake_data, i_status = OPEN\<rparr>
                  in and_then (flush db) (\<lambda>_ db.
                     let db = db\<lparr>work := (work db)\<lparr>intakes := intakes (work db) @ [new_intake]\<rparr>\<rparr>
                     in and_then (refresh db) (\<lambda>_ db.
                       let new_items = initial_checklist_items item_ids (i_id new_intake) client
                       in and_then (flush db) (\<lambda>_ db.
                          let db = db\<lparr>work := (work db)\<lparr>checklist_items :=
                                         checklist_items (work db) @ new_items\<rparr>\<rparr>
                          in and_then (execute db) (\<lambda>_ db.
                               case scalar_one (filter (\<lambda>i. i_id i = i_id new_intake) (intakes (work db))) of
                                 Inl e \<Rightarrow> (Inl e, db)
                               | Inr intake_with_items \<Rightarrow> (Inr intake_with_items, db))))))))"

text \<open>
  The library functions of the upload path are parameters: \<^verbatim>\<open>hashlib.sha256(b).hexdigest()\<close>,
  \<^verbatim>\<open>Path(filename).suffix.lower()\<close> and \<^verbatim>\<open>mimetypes.guess_type(filename)[0]\<close>. Writing the bytes
  to the bucket directory does not touch the database and is left out.
\<close>

record Lib =
  hexdigest :: "string \<Rightarrow> string"
  suffix_lower :: "string \<Rightarrow> string"
  guess_type :: "string \<Rightarrow> string option"

record UploadFile =
  uf_filename :: string
  uf_content :: string

text \<open>\<^verbatim>\<open>settings\<close> of \<^verbatim>\<open>app/core/config.py\<close>.\<close>

definition MAX_FILE_SIZE :: int where
  "MAX_FILE_SIZE = 10 * 1024 * 1024"

definition ALLOWED_EXTENSIONS :: "string list" where
  "ALLOWED_EXTENSIONS = [''.pdf'', ''.png'', ''.jpg'', ''.jpeg'']"

definition BUCKET_DIR :: string where
  "BUCKET_DIR = ''bucket''"

definition calculate_sha256 :: "Lib \<Rightarrow> string \<Rightarrow> string" where
  "calculate_sha256 lib file_content = hexdigest lib file_content"

definition validate_file_type :: "Lib \<Rightarrow> string \<Rightarrow> string list \<Rightarrow> error + string" where
  "validate_file_type lib fname allowed_extensions =
     (let file_ext = suffix_lower lib fname
      in if file_ext \<notin> set allowed_extensions then Inl (HTTPException 400)
         else case guess_type lib fname of
                Some (m # ms) \<Rightarrow> Inr (m # ms)
              | _ \<Rightarrow>
                  Inr (case map_of [(''.pdf'', ''application/pdf''), (''.png'', ''image/png''),
                                    (''.jpg'', ''image/jpeg''), (''.jpeg'', ''image/jpeg'')] file_ext of
                         Some m \<Rightarrow> m
                       | None \<Rightarrow> ''application/octet-stream''))"

definition validate_file_size :: "int \<Rightarrow> int \<Rightarrow> error + unit" where
  "validate_file_size file_size max_size =
     (if file_size > max_size then Inl (HTTPException 413) else Inr ())"

definition save_uploaded_file ::
    "Lib \<Rightarrow> UploadFile \<Rightarrow> string \<Rightarrow> string \<Rightarrow> string list \<Rightarrow> int
      \<Rightarrow> error + (string \<times> string \<times> string \<times> int)" where
  "save_uploaded_file lib file bucket_dir intake_id allowed_extensions max_file_size =
     (let file_content = uf_content file;
          file_size = int (length file_content)
      in case validate_file_size file_size max_file_size of
           Inl e \<Rightarrow> Inl e
         | Inr _ \<Rightarrow>
             (case validate_file_type lib (uf_filename file) allowed_extensions of
                Inl e \<Rightarrow> Inl e
              | Inr mime_type' \<Rightarrow>
                  (let sha256_hash = calculate_sha256 lib file_content;
                       file_ext = suffix_lower lib (uf_filename file);
                       stored_path' = bucket_dir @ ''/'' @ intake_id @ ''/'' @ sha256_hash @ file_ext
                   in Inr (file_content, stored_path', mime_type', file_size))))"

text \<open>
  Inserting a document row: the unique index \<^verbatim>\<open>idx_intake_sha256\<close> on
  \<^verbatim>\<open>(intake_id, sha256)\<close> makes the flush raise IntegrityError.
\<close>

definition flush_new_document :: "Document \<Rightarrow> Session \<Rightarrow> unit outcome" where
  "flush_new_document new_document db =
     and_then (flush db) (\<lambda>_ db.
       if \<exists>d \<in> set (documents (work db)).
            d_intake_id d = d_intake_id new_document \<and> sha256 d = sha256 new_document
       then (Inl IntegrityError, rollback db)
       else (Inr (), db\<lparr>work := (work db)\<lparr>documents := documents (work db) @ [new_document]\<rparr>\<rparr>))"

definition upload_document :: "Lib \<Rightarrow> string \<Rightarrow> string \<Rightarrow> UploadFile \<Rightarrow> Session \<Rightarrow> Document outcome" where
  "upload_document lib new_id intake_id file db =
     and_then (execute db) (\<lambda>_ db.
       case scalar_one_or_none (filter (\<lambda>i. i_id i = intake_id) (intakes (work db))) of
         Inl e \<Rightarrow> (Inl e, db)
       | Inr None \<Rightarrow> (Inl (HTTPException 404), db)
       | Inr (Some intake) \<Rightarrow>
           (case save_uploaded_file lib file BUCKET_DIR intake_id ALLOWED_EXTENSIONS MAX_FILE_SIZE of
              Inl e \<Rightarrow> (Inl e, db)
            | Inr (file_content, stored_path', mime_type', file_size) \<Rightarrow>
                (let sha256_hash = calculate_sha256 lib file_content
                 in and_then (execute db) (\<lambda>_ db.
                      case scalar_one_or_none
                             (filter (\<lambda>d. d_intake_id d = intake_id \<and> sha256 d = sha256_hash)
                                (documents (work db))) of
                        Inl e \<Rightarrow> (Inl e, db)
                      | Inr (Some existing_doc) \<Rightarrow> (Inl (HTTPException 409), db)
                      | Inr None \<Rightarrow>
                          (let new_document =
                                 \<lparr>d_id = new_id, d_intake_id = intake_id, filename = uf_filename file,
                                  sha256 = sha256_hash, mime_type = mime_type', size_bytes = file_size,
                                  stored_path = stored_path', doc_kind = UNKNOWN, extracted_data = None\<rparr>
                           in case and_then (flush_new_document new_document db) (\<lambda>_ db. refresh db) of
                                (Inl IntegrityError, db) \<Rightarrow> (Inl (HTTPException 409), db)
                              | (Inl e, db) \<Rightarrow> (Inl e, db)
                              | (Inr u, db) \<Rightarrow> (Inr new_document, db))))))"

section \<open>Classification and extraction endpoints (app/api/documents.py, app/api/intakes.py)\<close>

text \<open>
  The model service \<^verbatim>\<open>qwen3vl_service\<close> is an external capability: what it answers for a
  stored file, or that it raises, is a parameter. An extraction result stands for
  \<^verbatim>\<open>extraction.model_dump(mode='json')\<close>.
\<close>

record Service =
  svc_classify_document :: "string \<Rightarrow> error + string"
  extract_t4 :: "string \<Rightarrow> error + field_map"
  extract_id :: "string \<Rightarrow> error + field_map"
  extract_receipt :: "string \<Rightarrow> error + field_map"

text \<open>\<^verbatim>\<open>DocKind(doc_kind)\<close>: the member with that value, or ValueError.\<close>

definition DocKind_of_value :: "string \<Rightarrow> error + DocKind" where
  "DocKind_of_value v =
     (if v = ''T4'' then Inr T4
      else if v = ''receipt'' then Inr RECEIPT
      else if v = ''id'' then Inr ID
      else if v = ''unknown'' then Inr UNKNOWN
      else Inl ValueError)"

text \<open>An assignment to an attribute of a loaded document changes the row with its primary key.\<close>

definition update_document :: "string \<Rightarrow> (Document \<Rightarrow> Document) \<Rightarrow> Db \<Rightarrow> Db" where
  "update_document document_id f db =
     db\<lparr>documents := map (\<lambda>d. if d_id d = document_id then f d else d) (documents db)\<rparr>"

text \<open>\<^verbatim>\<open>try: ... except Exception as e: raise HTTPException(status_code=500, ...)\<close>\<close>

definition except_500 :: "'a outcome \<Rightarrow> 'a outcome" where
  "except_500 r = (case r of (Inl e, s) \<Rightarrow> (Inl (HTTPException 500), s) | (Inr x, s) \<Rightarrow> (Inr x, s))"

record ExtractionResponse =
  er_document_id :: string
  er_doc_kind :: DocKind
  er_extracted_data :: field_map
  fields_extracted :: nat

definition extraction_response :: "Document \<Rightarrow> field_map \<Rightarrow> ExtractionResponse" where
  "extraction_response document data =
     \<lparr>er_document_id = d_id document, er_doc_kind = doc_kind document, er_extracted_data = data,
      fields_extracted = length (filter (\<lambda>v. v \<noteq> JNull) (map snd data))\<rparr>"

definition classify_document :: "Service \<Rightarrow> string \<Rightarrow> Session \<Rightarrow> (string \<times> DocKind) outcome" where
  "classify_document svc document_id db =
     and_then (execute db) (\<lambda>_ db.
       case scalar_one_or_none (filter (\<lambda>d. d_id d = document_id) (documents (work db))) of
         Inl e \<Rightarrow> (Inl e, db)
       | Inr None \<Rightarrow> (Inl (HTTPException 404), db)
       | Inr (Some document) \<Rightarrow>
           except_500
             (case svc_classify_document svc (stored_path document) of
                Inl e \<Rightarrow> (Inl e, db)
              | Inr kind \<Rightarrow>
                  (case DocKind_of_value kind of
                     Inl e \<Rightarrow> (Inl e, db)
                   | Inr k \<Rightarrow>
                       and_then
                         (commit (db\<lparr>work := update_document (d_id document) (\<lambda>d. d\<lparr>doc_kind := k\<rparr>) (work db)\<rparr>))
                         (\<lambda>_ db. and_then (refresh db) (\<lambda>_ db. (Inr (d_id document, k), db))))))"

text \<open>
  The body of the \<^verbatim>\<open>try\<close> of \<^verbatim>\<open>extract_document\<close>, once the service has answered: store the
  extraction, commit, refresh, reconcile the checklist, answer.
\<close>

definition store_extraction :: "Document \<Rightarrow> field_map \<Rightarrow> Session \<Rightarrow> ExtractionResponse outcome" where
  "store_extraction document extraction db =
     and_then
       (commit (db\<lparr>work := update_document (d_id document) (\<lambda>d. d\<lparr>extracted_data := Some extraction\<rparr>)
                               (work db)\<rparr>))
       (\<lambda>_ db. and_then (refresh db) (\<lambda>_ db.
          and_then (update_checklist_for_document db (document\<lparr>extracted_data := Some extraction\<rparr>))
            (\<lambda>_ db. (Inr (extraction_response document extraction), db))))"

definition extract_document :: "Service \<Rightarrow> string \<Rightarrow> Session \<Rightarrow> ExtractionResponse outcome" where
  "extract_document svc document_id db =
     and_then (execute db) (\<lambda>_ db.
       case scalar_one_or_none (filter (\<lambda>d. d_id d = document_id) (documents (work db))) of
         Inl e \<Rightarrow> (Inl e, db)
       | Inr None \<Rightarrow> (Inl (HTTPException 404), db)
       | Inr (Some document) \<Rightarrow>
           if doc_kind document = UNKNOWN then (Inl (HTTPException 400), db)
           else
             except_500
               (case (if doc_kind document = T4 then extract_t4 svc (stored_path document)
                      else if doc_kind document = ID then extract_id svc (stored_path document)
                      else if doc_kind document = RECEIPT then extract_receipt svc (stored_path document)
                      else Inl (HTTPException 400)) of
                  Inl e \<Rightarrow> (Inl e, db)
                | Inr extraction \<Rightarrow> store_extraction document extraction db))"

text \<open>
  The loop of \<^verbatim>\<open>classify_intake_documents\<close>: a document whose classification raises is
  skipped; nothing is committed inside the loop.
\<close>

fun classify_each ::
    "Service \<Rightarrow> Document list \<Rightarrow> (string \<times> DocKind) list \<Rightarrow> Session
      \<Rightarrow> (string \<times> DocKind) list \<times> Session" where
  "classify_each svc [] classified db = (classified, db)"
| "classify_each svc (document # rest) classified db =
     (case svc_classify_document svc (stored_path document) of
        Inl e \<Rightarrow> classify_each svc rest classified db
      | Inr kind \<Rightarrow>
          (case DocKind_of_value kind of
             Inl e \<Rightarrow> classify_each svc rest classified db
           | Inr k \<Rightarrow>
               classify_each svc rest (classified @ [(d_id document, k)])
                 (db\<lparr>work := update_document (d_id document) (\<lambda>d. d\<lparr>doc_kind := k\<rparr>) (work db)\<rparr>)))"

definition classify_intake_documents ::
    "Service \<Rightarrow> string \<Rightarrow> Session \<Rightarrow> (string \<times> nat \<times> (string \<times> DocKind) list) outcome" where
  "classify_intake_documents svc intake_id db =
     and_then (execute db) (\<lambda>_ db.
       case scalar_one_or_none (filter (\<lambda>i. i_id i = intake_id) (intakes (work db))) of
         Inl e \<Rightarrow> (Inl e, db)
       | Inr None \<Rightarrow> (Inl (HTTPException 404), db)
       | Inr (Some intake) \<Rightarrow>
           and_then (execute db) (\<lambda>_ db.
             let unknown_docs = filter (\<lambda>d. d_intake_id d = intake_id \<and> doc_kind d = UNKNOWN)
                                  (documents (work db))
             in if unknown_docs = [] then (Inl (HTTPException 400), db)
                else case classify_each svc unknown_docs [] db of
                       (classified, db) \<Rightarrow>
                         and_then (commit db) (\<lambda>_ db.
                           (Inr (intake_id, length classified, classified), db))))"

text \<open>
  The loop of \<^verbatim>\<open>extract_intake_documents\<close>: a document that already has extracted data is
  skipped, and so is one whose extraction, commit or reconciliation raises.
\<close>

fun extract_each ::
    "Service \<Rightarrow> Document list \<Rightarrow> ExtractionResponse list \<Rightarrow> Session
      \<Rightarrow> ExtractionResponse list \<times> Session" where
  "extract_each svc [] extracted db = (extracted, db)"
| "extract_each svc (document # rest) extracted db =
     (if truthy (extracted_data document) then extract_each svc rest extracted db
      else if doc_kind document \<noteq> T4 \<and> doc_kind document \<noteq> ID \<and> doc_kind document \<noteq> RECEIPT
      then extract_each svc rest extracted db
      else
        case (if doc_kind document = T4 then extract_t4 svc (stored_path document)
              else if doc_kind document = ID then extract_id svc (stored_path document)
              else extract_receipt svc (stored_path document)) of
          Inl e \<Rightarrow> extract_each svc rest extracted db
        | Inr extraction \<Rightarrow>
            (case store_extraction document extraction db of
               (Inl e, db) \<Rightarrow> extract_each svc rest extracted db
             | (Inr response, db) \<Rightarrow> extract_each svc rest (extracted @ [response]) db))"

definition extract_intake_documents ::
    "Service \<Rightarrow> string \<Rightarrow> Session \<Rightarrow> (string \<times> nat \<times> ExtractionResponse list) outcome" where
  "extract_intake_documents svc intake_id db =
     and_then (execute db) (\<lambda>_ db.
       case scalar_one_or_none (filter (\<lambda>i. i_id i = intake_id) (intakes (work db))) of
         Inl e \<Rightarrow> (Inl e, db)
       | Inr None \<Rightarrow> (Inl (HTTPException 404), db)
       | Inr (Some intake) \<Rightarrow>
           and_then (execute db) (\<lambda>_ db.
             let classified_docs = filter (\<lambda>d. d_intake_id d = intake_id \<and> doc_kind d \<noteq> UNKNOWN)
                                     (documents (work db))
             in if classified_docs = [] then (Inl (HTTPException 400), db)
                else case extract_each svc classified_docs [] db of
                       (extracted, db) \<Rightarrow> (Inr (intake_id, length extracted, extracted), db)))"

section \<open>Sequences of operations\<close>

text \<open>
  The operations that write to the database, each with the inputs of one call. A run
  performs them in order on one session; an operation that raises leaves the session
  as it was when the exception left the operation, and the run goes on.
\<close>

datatype operation =
    CreateIntake string "DocKind \<Rightarrow> string" IntakeCreate
  | UploadDocument Lib string string UploadFile
  | ClassifyDocument Service string
  | ClassifyIntakeDocuments Service string
  | ExtractDocument Service string
  | ExtractIntakeDocuments Service string
  | UpdateChecklistForDocument Document
  | CheckAndUpdateIntakeStatus string

fun perform :: "operation \<Rightarrow> Session \<Rightarrow> Session" where
  "perform (CreateIntake new_id item_ids intake_data) db = snd (create_intake new_id item_ids intake_data db)"
| "perform (UploadDocument lib new_id intake_id file) db = snd (upload_document lib new_id intake_id file db)"
| "perform (ClassifyDocument svc document_id) db = snd (classify_document svc document_id db)"
| "perform (ClassifyIntakeDocuments svc intake_id) db = snd (classify_intake_documents svc intake_id db)"
| "perform (ExtractDocument svc document_id) db = snd (extract_document svc document_id db)"
| "perform (ExtractIntakeDocuments svc intake_id) db = snd (extract_intake_documents svc intake_id db)"
| "perform (UpdateChecklistForDocument document) db = snd (update_checklist_for_document db document)"
| "perform (CheckAndUpdateIntakeStatus intake_id) db = snd (check_and_update_intake_status db intake_id)"

fun run :: "operation list \<Rightarrow> Session \<Rightarrow> Session" where
  "run [] db = db"
| "run (op # ops) db = run ops (perform op db)"

section \<open>Auxiliary definitions for the statements\<close>

text \<open>
  What \<^verbatim>\<open>update_checklist_for_document\<close> assigns to the checklist item it found (lines 38
  to 42): the recount and the status.
\<close>

definition recount :: "Document \<Rightarrow> Db \<Rightarrow> ChecklistItem \<Rightarrow> ChecklistItem" where
  "recount document db checklist_item =
     (let extracted_count = int (length (filter (counted document) (documents db)));
          item1 = checklist_item\<lparr>quantity_received := extracted_count\<rparr>
      in if quantity_received item1 \<ge> quantity_expected item1
         then item1\<lparr>ci_status := RECEIVED\<rparr> else item1)"

text \<open>
  The rows after those assignments: the row of the item found is replaced, every other row of
  every table is as it was.
\<close>

definition item_update :: "Document \<Rightarrow> ChecklistItem \<Rightarrow> Db \<Rightarrow> Db" where
  "item_update document checklist_item w =
     w\<lparr>checklist_items :=
         map (\<lambda>c. if item_matches document c then recount document w checklist_item else c)
           (checklist_items w)\<rparr>"

text \<open>Reconciliation calls one after the other, for the documents of a list in its order.\<close>

fun reconcile_all :: "Session \<Rightarrow> Document list \<Rightarrow> Session" where
  "reconcile_all db [] = db"
| "reconcile_all db (d # ds) = reconcile_all (snd (update_checklist_for_document db d)) ds"

text \<open>
  An intake row is held by a session when it is among the committed rows and among the rows
  the transaction sees.
\<close>

definition holds :: "Intake \<Rightarrow> Session \<Rightarrow> bool" where
  "holds x s \<longleftrightarrow> x \<in> set (intakes (store s)) \<and> x \<in> set (intakes (work s))"

text \<open>A property of the rows that holds of the committed rows and of the rows the transaction sees.\<close>

definition both :: "(Db \<Rightarrow> bool) \<Rightarrow> Session \<Rightarrow> bool" where
  "both A s \<longleftrightarrow> A (store s) \<and> A (work s)"

text \<open>An intake with zero checklist items: the row is there and no checklist row refers to it.\<close>

definition without_items :: "Intake \<Rightarrow> Db \<Rightarrow> bool" where
  "without_items x db \<longleftrightarrow>
     x \<in> set (intakes db) \<and> filter (\<lambda>c. ci_intake_id c = i_id x) (checklist_items db) = []"

text \<open>
  The operations as the program performs them. \<^verbatim>\<open>check_and_update_intake_status\<close> has one
  call site, line 46 of the checklist service, inside \<^verbatim>\<open>update_checklist_for_document\<close>;
  no endpoint calls it on its own. An intake creation gives the new intake an identifier
  of its own (\<^verbatim>\<open>uuid4\<close>), not the identifier \<open>iid\<close> of an intake that exists.
\<close>

fun program_call :: "string \<Rightarrow> operation \<Rightarrow> bool" where
  "program_call iid (CreateIntake new_id item_ids intake_data) \<longleftrightarrow> new_id \<noteq> iid"
| "program_call iid (CheckAndUpdateIntakeStatus intake_id) \<longleftrightarrow> False"
| "program_call iid (UploadDocument lib new_id intake_id file) \<longleftrightarrow> True"
| "program_call iid (ClassifyDocument svc document_id) \<longleftrightarrow> True"
| "program_call iid (ClassifyIntakeDocuments svc intake_id) \<longleftrightarrow> True"
| "program_call iid (ExtractDocument svc document_id) \<longleftrightarrow> True"
| "program_call iid (ExtractIntakeDocuments svc intake_id) \<longleftrightarrow> True"
| "program_call iid (UpdateChecklistForDocument document) \<longleftrightarrow> True"

text \<open>
  The stored extraction results are what the write paths store: the column is left null by
  the upload and gets \<^verbatim>\<open>extraction.model_dump(mode='json')\<close> of a model with declared
  fields from the extraction, a dictionary that has a key for every declared field. No
  operation assigns \<^verbatim>\<open>None\<close> or \<^verbatim>\<open>{}\<close> to it.
\<close>

definition no_empty_maps :: "Db \<Rightarrow> bool" where
  "no_empty_maps db \<longleftrightarrow> (\<forall>d \<in> set (documents db). extracted_data d \<noteq> Some [])"

definition dumps_fields :: "Service \<Rightarrow> bool" where
  "dumps_fields svc \<longleftrightarrow>
     (\<forall>p. extract_t4 svc p \<noteq> Inr []) \<and> (\<forall>p. extract_id svc p \<noteq> Inr [])
     \<and> (\<forall>p. extract_receipt svc p \<noteq> Inr [])"

fun model_dumps :: "operation \<Rightarrow> bool" where
  "model_dumps (ExtractDocument svc document_id) \<longleftrightarrow> dumps_fields svc"
| "model_dumps (ExtractIntakeDocuments svc intake_id) \<longleftrightarrow> dumps_fields svc"
| "model_dumps (CreateIntake new_id item_ids intake_data) \<longleftrightarrow> True"
| "model_dumps (UploadDocument lib new_id intake_id file) \<longleftrightarrow> True"
| "model_dumps (ClassifyDocument svc document_id) \<longleftrightarrow> True"
| "model_dumps (ClassifyIntakeDocuments svc intake_id) \<longleftrightarrow> True"
| "model_dumps (UpdateChecklistForDocument document) \<longleftrightarrow> True"
| "model_dumps (CheckAndUpdateIntakeStatus intake_id) \<longleftrightarrow> True"

text \<open>Concrete rows for the examples.\<close>

definition example_intake :: "IntakeStatus \<Rightarrow> Intake" where
  "example_intake st =
     \<lparr>i_id = ''intake-1'', i_client_id = ''client-1'', fiscal_year = 2025, i_status = st\<rparr>"

definition example_item :: "DocKind \<Rightarrow> ChecklistStatus \<Rightarrow> int \<Rightarrow> int \<Rightarrow> ChecklistItem" where
  "example_item k st expected received =
     \<lparr>ci_id = ''item-1'', ci_intake_id = ''intake-1'', ci_doc_kind = k, ci_status = st,
      quantity_expected = expected, quantity_received = received\<rparr>"

definition example_document :: "string \<Rightarrow> DocKind \<Rightarrow> field_map option \<Rightarrow> Document" where
  "example_document did k data =
     \<lparr>d_id = did, d_intake_id = ''intake-1'', filename = ''scan.jpg'', sha256 = did,
      mime_type = ''image/jpeg'', size_bytes = 4, stored_path = ''bucket/intake-1/scan.jpg'',
      doc_kind = k, extracted_data = data\<rparr>"

definition example_db :: "Intake list \<Rightarrow> ChecklistItem list \<Rightarrow> Document list \<Rightarrow> Db" where
  "example_db ins cs ds = \<lparr>clients = [], intakes = ins, checklist_items = cs, documents = ds\<rparr>"

definition example_session :: "Intake list \<Rightarrow> ChecklistItem list \<Rightarrow> Document list \<Rightarrow> Session" where
  "example_session ins cs ds =
     \<lparr>store = example_db ins cs ds, work = example_db ins cs ds, fail_after = None\<rparr>"

definition example_client :: "ClientComplexity \<Rightarrow> Client" where
  "example_client c =
     \<lparr>c_id = ''client-1'', c_name = ''Ada'', c_email = ''ada@example.com'', complexity = c\<rparr>"

definition example_client_session :: "ClientComplexity \<Rightarrow> Session" where
  "example_client_session c =
     \<lparr>store = \<lparr>clients = [example_client c], intakes = [], checklist_items = [], documents = []\<rparr>,
      work = \<lparr>clients = [example_client c], intakes = [], checklist_items = [], documents = []\<rparr>,
      fail_after = None\<rparr>"

definition example_intake_data :: IntakeCreate where
  "example_intake_data = \<lparr>client_id = ''client-1'', ic_fiscal_year = 2025\<rparr>"

definition example_lib :: Lib where
  "example_lib = \<lparr>hexdigest = (\<lambda>b. b), suffix_lower = (\<lambda>f. ''.jpg''), guess_type = (\<lambda>f. None)\<rparr>"

definition example_file :: UploadFile where
  "example_file = \<lparr>uf_filename = ''scan.jpg'', uf_content = ''abcd''\<rparr>"

definition example_two_intakes :: Session where
  "example_two_intakes =
     example_session
       [example_intake OPEN,
        \<lparr>i_id = ''intake-2'', i_client_id = ''client-1'', fiscal_year = 2024, i_status = OPEN\<rparr>]
       [] [example_document ''abcd'' UNKNOWN None]"

section \<open>Properties of the checklist service\<close>

subsection \<open>Auxiliary lemmas\<close>

lemmas session_defs = and_then_def execute_def commit_def round_trip_def

lemmas example_defs = example_db_def example_intake_def example_item_def example_document_def example_session_def

lemmas service_defs = update_checklist_for_document_def check_and_update_intake_status_def
  item_matches_def counted_def set_intake_status_def

lemma check_no_failure:
  assumes "fail_after db = None"
  shows "check_and_update_intake_status db intake_id =
     (case scalar_one_or_none (filter (\<lambda>i. i_id i = intake_id) (intakes (work db))) of
        Inl e \<Rightarrow> (Inl e, db)
      | Inr None \<Rightarrow> (Inr (), db)
      | Inr (Some intake) \<Rightarrow>
          if filter (\<lambda>c. ci_intake_id c = intake_id \<and> ci_status c = MISSING) (checklist_items (work db)) = []
          then (Inr (), db\<lparr>work := set_intake_status intake_id DONE (work db),
                           store := set_intake_status intake_id DONE (work db)\<rparr>)
          else (Inr (), db))"
  using assms
  by (simp add: check_and_update_intake_status_def session_defs split: sum.splits option.splits)

lemma update_no_failure:
  assumes "fail_after db = None"
  shows "update_checklist_for_document db document =
     (if doc_kind document = UNKNOWN \<or> \<not> truthy (extracted_data document) then (Inr (), db)
      else case scalar_one_or_none (filter (item_matches document) (checklist_items (work db))) of
            Inl e \<Rightarrow> (Inl e, db)
          | Inr None \<Rightarrow> (Inr (), db)
          | Inr (Some checklist_item) \<Rightarrow>
              (let w = (work db)\<lparr>checklist_items :=
                           map (\<lambda>c. if item_matches document c then recount document (work db) checklist_item else c)
                             (checklist_items (work db))\<rparr>
               in check_and_update_intake_status (db\<lparr>work := w, store := w\<rparr>) (d_intake_id document)))"
  using assms unfolding recount_def Let_def
  by (simp add: update_checklist_for_document_def session_defs Let_def split: sum.splits option.splits)

lemma filter_replace:
  "P x \<Longrightarrow> filter P (map (\<lambda>c. if P c then x else c) xs) = replicate (length (filter P xs)) x"
  by (induction xs) auto

lemma recount_keys [simp]:
  "ci_intake_id (recount d db c) = ci_intake_id c"
  "ci_doc_kind (recount d db c) = ci_doc_kind c"
  "ci_id (recount d db c) = ci_id c"
  "quantity_expected (recount d db c) = quantity_expected c"
  by (simp_all add: recount_def Let_def)

lemma item_matches_recount [simp]:
  "item_matches document (recount d db c) = item_matches document c"
  by (simp add: recount_def item_matches_def Let_def)

lemma set_intake_status_simps [simp]:
  "checklist_items (set_intake_status i st db) = checklist_items db"
  "documents (set_intake_status i st db) = documents db"
  "clients (set_intake_status i st db) = clients db"
  by (simp_all add: set_intake_status_def)

lemma check_frame:
  assumes "fail_after db = None"
  shows "checklist_items (work (snd (check_and_update_intake_status db i))) = checklist_items (work db)"
    and "documents (work (snd (check_and_update_intake_status db i))) = documents (work db)"
    and "fail_after (snd (check_and_update_intake_status db i)) = None"
    and "store db = work db \<Longrightarrow>
           store (snd (check_and_update_intake_status db i)) = work (snd (check_and_update_intake_status db i))"
  using assms
  by (simp_all add: check_no_failure split: sum.splits option.splits)

lemma update_found:
  assumes "fail_after db = None" "doc_kind document \<noteq> UNKNOWN" "truthy (extracted_data document)"
    and "filter (item_matches document) (checklist_items (work db)) = [item]"
  shows "checklist_items (work (snd (update_checklist_for_document db document))) =
           map (\<lambda>c. if item_matches document c then recount document (work db) item else c)
             (checklist_items (work db))"
    and "store (snd (update_checklist_for_document db document)) =
           work (snd (update_checklist_for_document db document))"
  using assms
  by (simp_all add: update_no_failure check_frame Let_def)

lemma scalar_one_or_none_Some: "scalar_one_or_none xs = Inr (Some x) \<longleftrightarrow> xs = [x]"
  by (cases xs rule: scalar_one_or_none.cases) auto

lemma length_filter_replace:
  assumes "\<And>c. P c \<Longrightarrow> Q x = Q c"
  shows "length (filter Q (map (\<lambda>c. if P c then x else c) xs)) = length (filter Q xs)"
  using assms by (induction xs) auto

lemma update_frame:
  assumes "fail_after db = None"
  shows "documents (work (snd (update_checklist_for_document db document))) = documents (work db)"
    and "fail_after (snd (update_checklist_for_document db document)) = None"
    and "length (filter (item_matches d)
                   (checklist_items (work (snd (update_checklist_for_document db document))))) =
         length (filter (item_matches d) (checklist_items (work db)))"
proof -
  show "documents (work (snd (update_checklist_for_document db document))) = documents (work db)"
    using assms by (simp add: update_no_failure check_frame Let_def split: sum.splits option.splits)
  show "fail_after (snd (update_checklist_for_document db document)) = None"
    using assms by (simp add: update_no_failure check_frame Let_def split: sum.splits option.splits)
  show "length (filter (item_matches d)
                   (checklist_items (work (snd (update_checklist_for_document db document))))) =
         length (filter (item_matches d) (checklist_items (work db)))"
  proof (cases "scalar_one_or_none (filter (item_matches document) (checklist_items (work db)))")
    case (Inl e)
    then show ?thesis using assms by (simp add: update_no_failure)
  next
    case (Inr r)
    show ?thesis
    proof (cases r)
      case None
      then show ?thesis using assms Inr by (simp add: update_no_failure)
    next
      case (Some item)
      then have "filter (item_matches document) (checklist_items (work db)) = [item]"
        using Inr by (simp add: scalar_one_or_none_Some)
      then have m: "item_matches document item"
        by (metis filter_eq_ConsD)
      have k: "\<And>c. item_matches document c \<Longrightarrow>
              item_matches d (recount document (work db) item) = item_matches d c"
        using m by (auto simp: item_matches_def)
      show ?thesis
      proof (cases "doc_kind document = UNKNOWN \<or> \<not> truthy (extracted_data document)")
        case True
        then show ?thesis using assms by (simp add: update_no_failure)
      next
        case False
        then have "checklist_items (work (snd (update_checklist_for_document db document))) =
           map (\<lambda>c. if item_matches document c then recount document (work db) item else c)
             (checklist_items (work db))"
          using update_found(1) [OF assms _ _ \<open>filter (item_matches document) (checklist_items (work db)) = [item]\<close>]
          by blast
        then show ?thesis
          using length_filter_replace [of "item_matches document" "item_matches d", OF k] by simp
      qed
    qed
  qed
qed

lemma reconcile_all_frame:
  assumes "fail_after db = None"
  shows "documents (work (reconcile_all db ds)) = documents (work db)
       \<and> fail_after (reconcile_all db ds) = None
       \<and> length (filter (item_matches d) (checklist_items (work (reconcile_all db ds)))) =
         length (filter (item_matches d) (checklist_items (work db)))"
  using assms
proof (induction ds arbitrary: db)
  case Nil
  then show ?case by simp
next
  case (Cons a ds)
  then show ?case by (simp add: update_frame)
qed

lemma length_one_filter: "length xs = Suc 0 \<Longrightarrow> \<exists>x. xs = [x]"
  by (cases xs) auto

lemma scalar_one_or_none_map:
  "scalar_one_or_none (map g xs) =
     (case scalar_one_or_none xs of
        Inl e \<Rightarrow> Inl e | Inr None \<Rightarrow> Inr None | Inr (Some x) \<Rightarrow> Inr (Some (g x)))"
  by (cases xs rule: scalar_one_or_none.cases) auto

lemma filter_status_rows:
  "filter (\<lambda>i. i_id i = iid) (map (\<lambda>i. if i_id i = iid then i\<lparr>i_status := st\<rparr> else i) xs) =
     map (\<lambda>i. i\<lparr>i_status := st\<rparr>) (filter (\<lambda>i. i_id i = iid) xs)"
  by (induction xs) auto

lemma filter_set_intake_status:
  "filter (\<lambda>i. i_id i = iid) (intakes (set_intake_status iid st db)) =
     map (\<lambda>i. i\<lparr>i_status := st\<rparr>) (filter (\<lambda>i. i_id i = iid) (intakes db))"
  by (simp add: set_intake_status_def filter_status_rows)

lemma set_intake_status_idem:
  "set_intake_status iid st (set_intake_status iid st db) = set_intake_status iid st db"
  by (simp add: set_intake_status_def comp_def)

lemma check_idempotent:
  assumes "fail_after s = None"
  shows "check_and_update_intake_status (snd (check_and_update_intake_status s iid)) iid =
         check_and_update_intake_status s iid"
proof (cases "scalar_one_or_none (filter (\<lambda>i. i_id i = iid) (intakes (work s)))")
  case (Inl e)
  then show ?thesis using assms by (simp add: check_no_failure)
next
  case (Inr r)
  show ?thesis
  proof (cases r)
    case None
    then show ?thesis using assms Inr by (simp add: check_no_failure)
  next
    case (Some intake)
    show ?thesis
    proof (cases "filter (\<lambda>c. ci_intake_id c = iid \<and> ci_status c = MISSING) (checklist_items (work s)) = []")
      case True
      then show ?thesis
        using assms Inr Some
        by (simp add: check_no_failure filter_set_intake_status scalar_one_or_none_map set_intake_status_idem)
    next
      case False
      then show ?thesis using assms Inr Some by (simp add: check_no_failure)
    qed
  qed
qed

lemma map_replace_idem:
  "P x \<Longrightarrow> map (\<lambda>c. if P c then x else c) (map (\<lambda>c. if P c then x else c) xs) =
     map (\<lambda>c. if P c then x else c) xs"
  by (induction xs) auto

lemma session_update_swap:
  "store_update f (fail_after_update g s) = fail_after_update g (store_update f s)"
  "work_update h (fail_after_update g s) = fail_after_update g (work_update h s)"
  "work_update h (store_update f s) = store_update f (work_update h s)"
  by (cases s; simp)+

lemma check_store_char:
  "(fst (check_and_update_intake_status s iid) \<noteq> Inr () \<longrightarrow>
      store (snd (check_and_update_intake_status s iid)) = store s)
   \<and> (fst (check_and_update_intake_status s iid) = Inr () \<longrightarrow>
      store (snd (check_and_update_intake_status s iid)) =
        (if filter (\<lambda>i. i_id i = iid) (intakes (work s)) \<noteq> []
            \<and> filter (\<lambda>c. ci_intake_id c = iid \<and> ci_status c = MISSING) (checklist_items (work s)) = []
         then set_intake_status iid DONE (work s) else store s))
   \<and> (fail_after s = Some 0 \<longrightarrow> fst (check_and_update_intake_status s iid) = Inl OperationalError)"
  by (cases "filter (\<lambda>i. i_id i = iid) (intakes (work s))" rule: scalar_one_or_none.cases)
     (auto simp: check_and_update_intake_status_def session_defs Let_def
           split: sum.splits option.splits nat.splits)

lemma update_after_item_commit:
  assumes "doc_kind document \<noteq> UNKNOWN" "truthy (extracted_data document)"
    and "filter (item_matches document) (checklist_items (work db)) = [item]"
    and "fail_after db = None \<or> (\<exists>m. fail_after db = Some (m + 3))"
  shows "update_checklist_for_document db document =
           check_and_update_intake_status
             (db\<lparr>work := (work db)\<lparr>checklist_items :=
                     map (\<lambda>c. if item_matches document c then recount document (work db) item else c)
                       (checklist_items (work db))\<rparr>,
                 store := (work db)\<lparr>checklist_items :=
                     map (\<lambda>c. if item_matches document c then recount document (work db) item else c)
                       (checklist_items (work db))\<rparr>,
                 fail_after := map_option (\<lambda>k. k - 3) (fail_after db)\<rparr>) (d_intake_id document)"
  using assms(4)
proof
  assume none: "fail_after db = None"
  then have e: "\<And>w w'. db\<lparr>work := w, store := w', fail_after := None\<rparr> = db\<lparr>work := w, store := w'\<rparr>"
    by (cases db) simp
  show ?thesis
    using assms(1-3) none
    by (simp add: update_no_failure Let_def e)
next
  assume "\<exists>m. fail_after db = Some (m + 3)"
  then obtain m where late: "fail_after db = Some (m + 3)" by blast
  show ?thesis
    using assms(1-3) late
    unfolding update_checklist_for_document_def recount_def Let_def
    by (simp add: session_defs numeral_3_eq_3 session_update_swap cong: if_cong)
qed

lemma update_before_item_commit:
  assumes "doc_kind document \<noteq> UNKNOWN" "truthy (extracted_data document)"
    and "filter (item_matches document) (checklist_items (work db)) = [item]"
    and "fail_after db = Some k" "k < 3"
  shows "fst (update_checklist_for_document db document) = Inl OperationalError
       \<and> store (snd (update_checklist_for_document db document)) = store db"
proof -
  have "k = 0 \<or> k = 1 \<or> k = 2" using assms(5) by auto
  then show ?thesis
    using assms(1-4)
    unfolding update_checklist_for_document_def
    by (auto simp: session_defs Let_def)
qed

lemma recount_after_calls:
  assumes "fail_after db = None" "doc_kind document \<noteq> UNKNOWN" "truthy (extracted_data document)"
    and "filter (item_matches document) (checklist_items (work db)) = [item]"
  shows "\<exists>item'. filter (item_matches document)
             (checklist_items (store (snd (update_checklist_for_document (reconcile_all db prior) document)))) = [item']
           \<and> quantity_received item' = int (length (filter (counted document) (documents (work db))))
           \<and> documents (store (snd (update_checklist_for_document (reconcile_all db prior) document))) =
               documents (work db)"
proof -
  let ?db = "reconcile_all db prior"
  have f: "fail_after ?db = None" and docs: "documents (work ?db) = documents (work db)"
    and "length (filter (item_matches document) (checklist_items (work ?db))) = Suc 0"
    using reconcile_all_frame [OF assms(1), of prior document] assms(4) by simp_all
  then obtain it where it: "filter (item_matches document) (checklist_items (work ?db)) = [it]"
    using length_one_filter by blast
  then have m: "item_matches document it"
    by (metis filter_eq_ConsD)
  let ?s = "snd (update_checklist_for_document ?db document)"
  have st: "store ?s = work ?s"
    using update_found(2) [OF f assms(2,3) it] .
  have "filter (item_matches document) (checklist_items (store ?s)) = [recount document (work ?db) it]"
    using f assms(2,3) it m by (simp add: update_found filter_replace)
  moreover have "documents (store ?s) = documents (work db)"
    using st update_frame(1) [OF f] docs by simp
  moreover have "quantity_received (recount document (work ?db) it) =
      int (length (filter (counted document) (documents (work db))))"
    by (simp add: recount_def Let_def docs)
  ultimately show ?thesis by blast
qed

lemma counted_extracted:
  assumes "no_empty_maps db"
  shows "filter (counted document) (documents db) =
         filter (\<lambda>d. d_intake_id d = d_intake_id document \<and> doc_kind d = doc_kind document
                      \<and> extracted_data d \<noteq> None \<and> extracted_data d \<noteq> Some [])
           (documents db)"
  using assms by (intro filter_cong) (auto simp: counted_def no_empty_maps_def)

subsection \<open>C1: the recount\<close>

text \<open>
  C1. When an intake has one checklist item for the kind of the triggering document, that
  document is classified and carries non-empty extracted data, the database does not fail
  and every stored extraction result is what the write paths store (null, or a map that is
  not empty), then after the reconciliation call the item's \<open>quantity_received\<close> is the number
  of documents of that intake and kind whose extracted data is neither null nor empty,
  whatever reconciliation calls \<open>prior\<close> came before and in whatever order. (The last
  section shows that the operations keep the stored results null or not empty.)
\<close>

theorem recount_counts_extracted_documents:
  assumes "fail_after db = None" "doc_kind document \<noteq> UNKNOWN" "truthy (extracted_data document)"
    and "filter (item_matches document) (checklist_items (work db)) = [item]"
    and "no_empty_maps (work db)"
  shows "\<exists>item'. filter (item_matches document)
             (checklist_items (store (snd (update_checklist_for_document (reconcile_all db prior) document)))) = [item']
           \<and> quantity_received item' =
               int (length (filter (\<lambda>d. d_intake_id d = d_intake_id document \<and> doc_kind d = doc_kind document
                                       \<and> extracted_data d \<noteq> None \<and> extracted_data d \<noteq> Some [])
                              (documents (store (snd (update_checklist_for_document (reconcile_all db prior) document))))))"
proof -
  obtain item' where
    a: "filter (item_matches document)
          (checklist_items (store (snd (update_checklist_for_document (reconcile_all db prior) document)))) = [item']"
    and b: "quantity_received item' = int (length (filter (counted document) (documents (work db))))"
    and c: "documents (store (snd (update_checklist_for_document (reconcile_all db prior) document))) =
               documents (work db)"
    using recount_after_calls [OF assms(1-4), of prior] by blast
  show ?thesis
    using a b unfolding c counted_extracted [OF assms(5)] by blast
qed

theorem recount_counts_extracted_documents_witness:
  "fail_after (example_session [example_intake OPEN] [example_item T4 MISSING 1 0]
         [example_document ''d1'' T4 (Some [(''year'', JStr ''2024'')]),
          example_document ''d2'' T4 None]) = None
   \<and> no_empty_maps (work (example_session [example_intake OPEN] [example_item T4 MISSING 1 0]
         [example_document ''d1'' T4 (Some [(''year'', JStr ''2024'')]),
          example_document ''d2'' T4 None]))
   \<and> (\<exists>item'. filter (item_matches (example_document ''d1'' T4 (Some [(''year'', JStr ''2024'')])))
         (checklist_items (store (snd (update_checklist_for_document
            (reconcile_all
               (example_session [example_intake OPEN] [example_item T4 MISSING 1 0]
                  [example_document ''d1'' T4 (Some [(''year'', JStr ''2024'')]),
                   example_document ''d2'' T4 None])
               [example_document ''d1'' T4 (Some [(''year'', JStr ''2024'')])])
            (example_document ''d1'' T4 (Some [(''year'', JStr ''2024'')])))))) = [item']
        \<and> quantity_received item' = 1)"
proof -
  let ?d1 = "example_document ''d1'' T4 (Some [(''year'', JStr ''2024'')])"
  let ?d2 = "example_document ''d2'' T4 None"
  let ?db = "example_session [example_intake OPEN] [example_item T4 MISSING 1 0] [?d1, ?d2]"
  have h1: "fail_after ?db = None" by (simp add: example_defs)
  have h2: "doc_kind ?d1 \<noteq> UNKNOWN" by (simp add: example_defs)
  have h3: "truthy (extracted_data ?d1)" by (simp add: example_defs)
  have h4: "filter (item_matches ?d1) (checklist_items (work ?db)) = [example_item T4 MISSING 1 0]"
    by (simp add: example_defs item_matches_def)
  have h5: "no_empty_maps (work ?db)" by (simp add: example_defs no_empty_maps_def)
  have n: "documents (store (snd (update_checklist_for_document (reconcile_all ?db [?d1]) ?d1))) = [?d1, ?d2]"
    by (simp add: example_defs service_defs session_defs Let_def)
  have c: "int (length (filter (\<lambda>d. d_intake_id d = d_intake_id ?d1 \<and> doc_kind d = doc_kind ?d1
                                       \<and> extracted_data d \<noteq> None \<and> extracted_data d \<noteq> Some [])
                              [?d1, ?d2])) = 1"
    by (simp add: example_defs)
  show ?thesis
    using h1 h5 recount_counts_extracted_documents [OF h1 h2 h3 h4 h5, of "[?d1]"]
    unfolding n c by blast
qed

subsection \<open>C2: the item status after a reconciliation\<close>

text \<open>
  C2 as stated fails: an item that is \<open>RECEIVED\<close> with 2 of 2 and is recounted to 1 of 2
  keeps the status \<open>RECEIVED\<close>; it is not set back to \<open>MISSING\<close>.
\<close>

theorem item_status_not_reset_counterexample:
  "map (\<lambda>c. (quantity_received c, quantity_expected c, ci_status c))
     (checklist_items (store (snd (update_checklist_for_document
        (example_session [example_intake DONE] [example_item RECEIPT RECEIVED 2 2]
           [example_document ''d1'' RECEIPT (Some [(''total'', JStr ''12.50'')])])
        (example_document ''d1'' RECEIPT (Some [(''total'', JStr ''12.50'')]))))))
   = [(1, 2, RECEIVED)]"
  by (simp add: example_defs service_defs session_defs Let_def)

text \<open>
  C2 (amended). A reconciliation call that locates the checklist item sets the item's status
  to \<open>RECEIVED\<close> when the recomputed \<open>quantity_received\<close> is at least
  \<open>quantity_expected\<close>, and otherwise leaves the status as it was: the service has no
  branch that writes \<open>MISSING\<close>. The expected quantity is not touched.
\<close>

theorem item_status_after_reconciliation:
  assumes "fail_after db = None" "doc_kind document \<noteq> UNKNOWN" "truthy (extracted_data document)"
    and "filter (item_matches document) (checklist_items (work db)) = [item]"
  shows "\<exists>item'. filter (item_matches document)
                    (checklist_items (store (snd (update_checklist_for_document db document)))) = [item']
           \<and> quantity_expected item' = quantity_expected item
           \<and> ci_status item' =
               (if quantity_received item' \<ge> quantity_expected item' then RECEIVED else ci_status item)"
proof -
  let ?item' = "recount document (work db) item"
  have m: "item_matches document item"
    using assms(4) by (metis filter_eq_ConsD)
  have "filter (item_matches document)
          (checklist_items (store (snd (update_checklist_for_document db document)))) = [?item']"
    using assms m by (simp add: update_found filter_replace)
  moreover have "quantity_expected ?item' = quantity_expected item"
    by (simp add: recount_def Let_def)
  moreover have "ci_status ?item' =
      (if quantity_received ?item' \<ge> quantity_expected ?item' then RECEIVED else ci_status item)"
    by (simp add: recount_def Let_def)
  ultimately show ?thesis by blast
qed

theorem item_status_after_reconciliation_witness:
  "fail_after (example_session [example_intake OPEN] [example_item RECEIPT MISSING 2 0]
           [example_document ''d1'' RECEIPT (Some [(''total'', JStr ''12.50'')])]) = None
   \<and> (\<exists>item'. filter (item_matches (example_document ''d1'' RECEIPT (Some [(''total'', JStr ''12.50'')])))
          (checklist_items (store (snd (update_checklist_for_document
             (example_session [example_intake OPEN] [example_item RECEIPT MISSING 2 0]
                [example_document ''d1'' RECEIPT (Some [(''total'', JStr ''12.50'')])])
             (example_document ''d1'' RECEIPT (Some [(''total'', JStr ''12.50'')])))))) = [item']
        \<and> quantity_expected item' = quantity_expected (example_item RECEIPT MISSING 2 0)
        \<and> ci_status item' = (if quantity_received item' \<ge> quantity_expected item' then RECEIVED
                              else ci_status (example_item RECEIPT MISSING 2 0)))"
proof -
  let ?d1 = "example_document ''d1'' RECEIPT (Some [(''total'', JStr ''12.50'')])"
  let ?db = "example_session [example_intake OPEN] [example_item RECEIPT MISSING 2 0] [?d1]"
  have h1: "fail_after ?db = None" by (simp add: example_defs)
  have h2: "doc_kind ?d1 \<noteq> UNKNOWN" by (simp add: example_defs)
  have h3: "truthy (extracted_data ?d1)" by (simp add: example_defs)
  have h4: "filter (item_matches ?d1) (checklist_items (work ?db)) = [example_item RECEIPT MISSING 2 0]"
    by (simp add: example_defs item_matches_def)
  show ?thesis
    using h1 item_status_after_reconciliation [OF h1 h2 h3 h4]
    by blast
qed

subsection \<open>C5: idempotence\<close>

text \<open>
  C5. With a database that does not fail, a second reconciliation call for the same document
  right after the first returns what the first returned and leaves the session (checklist
  items, intake statuses, committed rows) exactly as the first call left it.
\<close>

theorem reconciliation_idempotent:
  assumes "fail_after db = None"
  shows "update_checklist_for_document (snd (update_checklist_for_document db document)) document =
         update_checklist_for_document db document"
proof (cases "doc_kind document = UNKNOWN \<or> \<not> truthy (extracted_data document)")
  case True
  then show ?thesis by (simp add: update_checklist_for_document_def)
next
  case guard: False
  show ?thesis
  proof (cases "scalar_one_or_none (filter (item_matches document) (checklist_items (work db)))")
    case (Inl e)
    then show ?thesis using assms guard by (simp add: update_no_failure)
  next
    case (Inr r)
    show ?thesis
    proof (cases r)
      case None
      then show ?thesis using assms guard Inr by (simp add: update_no_failure)
    next
      case (Some item)
      then have found: "filter (item_matches document) (checklist_items (work db)) = [item]"
        using Inr by (simp add: scalar_one_or_none_Some)
      then have m: "item_matches document item"
        by (metis filter_eq_ConsD)
      let ?R = "recount document (work db) item"
      let ?w = "(work db)\<lparr>checklist_items :=
                   map (\<lambda>c. if item_matches document c then ?R else c) (checklist_items (work db))\<rparr>"
      let ?s1 = "db\<lparr>work := ?w, store := ?w\<rparr>"
      let ?s' = "snd (update_checklist_for_document db document)"
      have first: "update_checklist_for_document db document =
                   check_and_update_intake_status ?s1 (d_intake_id document)"
        using assms guard Inr Some by (simp add: update_no_failure Let_def)
      have f1: "fail_after ?s1 = None" using assms by simp
      have f': "fail_after ?s' = None"
        using update_frame(2) [OF assms] .
      have items': "checklist_items (work ?s') = checklist_items ?w"
        using first check_frame(1) [OF f1] by simp
      have docs': "documents (work ?s') = documents (work db)"
        using update_frame(1) [OF assms] .
      have st': "store ?s' = work ?s'"
        using first check_frame(4) [OF f1] by simp
      have found': "filter (item_matches document) (checklist_items (work ?s')) = [?R]"
        using items' found m by (simp add: filter_replace)
      have R': "recount document (work ?s') ?R = ?R"
        by (simp add: recount_def Let_def docs')
      let ?w' = "(work ?s')\<lparr>checklist_items :=
                   map (\<lambda>c. if item_matches document c then recount document (work ?s') ?R else c)
                     (checklist_items (work ?s'))\<rparr>"
      have e1: "update_checklist_for_document ?s' document =
            check_and_update_intake_status (?s'\<lparr>work := ?w', store := ?w'\<rparr>) (d_intake_id document)"
        using f' guard found' by (simp add: update_no_failure Let_def)
      have "map (\<lambda>c. if item_matches document c then ?R else c) (checklist_items (work ?s')) =
              checklist_items (work ?s')"
        using items' m by (simp add: map_replace_idem)
      then have e2: "?w' = work ?s'"
        unfolding R' by simp
      have e3: "?s'\<lparr>work := work ?s', store := work ?s'\<rparr> = ?s'"
        using st' by (cases ?s') simp
      have "update_checklist_for_document ?s' document =
            check_and_update_intake_status ?s' (d_intake_id document)"
        unfolding e1 e2 e3 ..
      also have "\<dots> = check_and_update_intake_status ?s1 (d_intake_id document)"
        using check_idempotent [OF f1, of "d_intake_id document"] first by simp
      finally show ?thesis using first by simp
    qed
  qed
qed

theorem reconciliation_idempotent_witness:
  "fail_after (example_session [example_intake OPEN] [example_item T4 MISSING 1 0]
       [example_document ''d1'' T4 (Some [(''year'', JStr ''2024'')])]) = None
   \<and> update_checklist_for_document
        (snd (update_checklist_for_document
           (example_session [example_intake OPEN] [example_item T4 MISSING 1 0]
              [example_document ''d1'' T4 (Some [(''year'', JStr ''2024'')])])
           (example_document ''d1'' T4 (Some [(''year'', JStr ''2024'')]))))
        (example_document ''d1'' T4 (Some [(''year'', JStr ''2024'')]))
      = update_checklist_for_document
           (example_session [example_intake OPEN] [example_item T4 MISSING 1 0]
              [example_document ''d1'' T4 (Some [(''year'', JStr ''2024'')])])
           (example_document ''d1'' T4 (Some [(''year'', JStr ''2024'')]))"
proof -
  have h: "fail_after (example_session [example_intake OPEN] [example_item T4 MISSING 1 0]
       [example_document ''d1'' T4 (Some [(''year'', JStr ''2024'')])]) = None"
    by (simp add: example_session_def)
  show ?thesis
    using h reconciliation_idempotent [OF h] by blast
qed

subsection \<open>C6: the calls that change nothing\<close>

text \<open>
  C6. If the triggering document's kind is \<open>UNKNOWN\<close>, or its extracted data is null or the
  empty map, or the intake has no checklist item of the document's kind, reconciliation
  changes nothing: the rows the transaction sees and the committed rows (every checklist
  item, every intake status) are what they were, also when the database fails, and with a
  database that does not fail the call returns normally.
\<close>

theorem reconciliation_noop:
  assumes "doc_kind document = UNKNOWN \<or> extracted_data document = None
           \<or> extracted_data document = Some []
           \<or> filter (item_matches document) (checklist_items (work db)) = []"
  shows "work (snd (update_checklist_for_document db document)) = work db
       \<and> store (snd (update_checklist_for_document db document)) = store db
       \<and> (fail_after db = None \<longrightarrow> update_checklist_for_document db document = (Inr (), db))"
  using assms
  by (auto simp: update_checklist_for_document_def session_defs split: option.splits nat.splits)

theorem reconciliation_noop_witness:
  "doc_kind (example_document ''d1'' UNKNOWN None) = UNKNOWN
   \<and> update_checklist_for_document
        (example_session [example_intake OPEN] [example_item T4 MISSING 1 0] [example_document ''d1'' UNKNOWN None])
        (example_document ''d1'' UNKNOWN None)
      = (Inr (), example_session [example_intake OPEN] [example_item T4 MISSING 1 0] [example_document ''d1'' UNKNOWN None])"
proof -
  let ?d1 = "example_document ''d1'' UNKNOWN None"
  let ?db = "example_session [example_intake OPEN] [example_item T4 MISSING 1 0] [?d1]"
  have h: "doc_kind ?d1 = UNKNOWN" by (simp add: example_defs)
  then have h': "doc_kind ?d1 = UNKNOWN \<or> extracted_data ?d1 = None
           \<or> extracted_data ?d1 = Some []
           \<or> filter (item_matches ?d1) (checklist_items (work ?db)) = []" by simp
  have f: "fail_after ?db = None" by (simp add: example_defs)
  show ?thesis
    using h f reconciliation_noop [OF h'] by simp
qed

subsection \<open>C7: failures and the two commits\<close>

text \<open>
  C7 as stated fails: when the first query of the intake-status re-evaluation raises (the
  fourth round trip), the item is committed as \<open>RECEIVED\<close> with 1 of 1 while the intake is
  still \<open>OPEN\<close>; the complete reconciliation commits the intake as \<open>DONE\<close>.
\<close>

theorem reconciliation_partial_commit_counterexample:
  "update_checklist_for_document
     ((example_session [example_intake OPEN] [example_item T4 MISSING 1 0]
         [example_document ''d1'' T4 (Some [(''year'', JStr ''2024'')])])\<lparr>fail_after := Some 3\<rparr>)
     (example_document ''d1'' T4 (Some [(''year'', JStr ''2024'')]))
   = (Inl OperationalError,
      \<lparr>store = example_db [example_intake OPEN] [example_item T4 RECEIVED 1 1]
                 [example_document ''d1'' T4 (Some [(''year'', JStr ''2024'')])],
       work = example_db [example_intake OPEN] [example_item T4 RECEIVED 1 1]
                 [example_document ''d1'' T4 (Some [(''year'', JStr ''2024'')])],
       fail_after = Some 0\<rparr>)
   \<and> store (snd (update_checklist_for_document
        (example_session [example_intake OPEN] [example_item T4 MISSING 1 0]
           [example_document ''d1'' T4 (Some [(''year'', JStr ''2024'')])])
        (example_document ''d1'' T4 (Some [(''year'', JStr ''2024'')]))))
     = example_db [example_intake DONE] [example_item T4 RECEIVED 1 1]
         [example_document ''d1'' T4 (Some [(''year'', JStr ''2024'')])]"
  by (simp add: example_defs service_defs session_defs Let_def numeral_3_eq_3)

text \<open>
  C7 (amended). The reconciliation that locates its checklist item writes in two commits: the
  item first (line 43), the intake status in the re-evaluation that follows (line 74).
  A call whose first, second or third database round trip raises (the two queries and the
  first commit) has committed nothing. A call that raises later, in the intake-status
  re-evaluation, has committed the rows the session saw with the item's count and status
  updated and the intake table as it was: the fourth round trip, the first query of the
  re-evaluation, always does so when it raises. A call that returns normally has committed
  the item and, when the intake is found and none of its items is missing, the status
  \<open>DONE\<close> as well.
\<close>

theorem reconciliation_commit_states:
  assumes "doc_kind document \<noteq> UNKNOWN" "truthy (extracted_data document)"
    and "filter (item_matches document) (checklist_items (work db)) = [item]"
  shows "(\<forall>k<3. fail_after db = Some k \<longrightarrow>
            fst (update_checklist_for_document db document) = Inl OperationalError
          \<and> store (snd (update_checklist_for_document db document)) = store db)
       \<and> (fail_after db = Some 3 \<longrightarrow>
            fst (update_checklist_for_document db document) = Inl OperationalError
          \<and> store (snd (update_checklist_for_document db document)) = item_update document item (work db))
       \<and> (fail_after db = None \<or> (\<exists>k\<ge>3. fail_after db = Some k) \<longrightarrow>
            (fst (update_checklist_for_document db document) \<noteq> Inr () \<longrightarrow>
               store (snd (update_checklist_for_document db document)) = item_update document item (work db))
          \<and> (fst (update_checklist_for_document db document) = Inr () \<longrightarrow>
               store (snd (update_checklist_for_document db document)) =
                 (if filter (\<lambda>i. i_id i = d_intake_id document) (intakes (work db)) \<noteq> []
                     \<and> filter (\<lambda>c. ci_intake_id c = d_intake_id document \<and> ci_status c = MISSING)
                          (checklist_items (item_update document item (work db))) = []
                  then set_intake_status (d_intake_id document) DONE (item_update document item (work db))
                  else item_update document item (work db))))"
proof -
  let ?r = "update_checklist_for_document db document"
  let ?w = "item_update document item (work db)"
  let ?iid = "d_intake_id document"
  let ?s1 = "db\<lparr>work := ?w, store := ?w, fail_after := map_option (\<lambda>k. k - 3) (fail_after db)\<rparr>"
  have early: "\<forall>k<3. fail_after db = Some k \<longrightarrow> fst ?r = Inl OperationalError \<and> store (snd ?r) = store db"
    using update_before_item_commit [OF assms] by blast
  have shape: "?r = check_and_update_intake_status ?s1 ?iid"
    if "fail_after db = None \<or> (\<exists>m. fail_after db = Some (m + 3))"
    using update_after_item_commit [OF assms that] by (simp add: item_update_def)
  have late: "fail_after db = None \<or> (\<exists>m. fail_after db = Some (m + 3))"
    if "fail_after db = None \<or> (\<exists>k\<ge>3. fail_after db = Some k)"
  proof -
    have "\<exists>m. k = m + 3" if "3 \<le> k" for k :: nat using that by presburger
    then show ?thesis using that by auto
  qed
  have st: "store ?s1 = ?w" "work ?s1 = ?w" by simp_all
  have ins: "intakes ?w = intakes (work db)" by (simp add: item_update_def)
  have three: "fail_after db = Some 3 \<longrightarrow> fst ?r = Inl OperationalError \<and> store (snd ?r) = ?w"
  proof
    assume t: "fail_after db = Some 3"
    have l: "fail_after db = None \<or> (\<exists>m. fail_after db = Some (m + 3))"
      using t by (auto intro: exI [of _ 0])
    have z: "fail_after ?s1 = Some 0" using t by simp
    from check_store_char [of ?s1 ?iid] z show "fst ?r = Inl OperationalError \<and> store (snd ?r) = ?w"
      unfolding shape [OF l] st by simp
  qed
  have rest: "fail_after db = None \<or> (\<exists>k\<ge>3. fail_after db = Some k) \<longrightarrow>
            (fst ?r \<noteq> Inr () \<longrightarrow> store (snd ?r) = ?w)
          \<and> (fst ?r = Inr () \<longrightarrow>
               store (snd ?r) =
                 (if filter (\<lambda>i. i_id i = ?iid) (intakes (work db)) \<noteq> []
                     \<and> filter (\<lambda>c. ci_intake_id c = ?iid \<and> ci_status c = MISSING)
                          (checklist_items ?w) = []
                  then set_intake_status ?iid DONE ?w else ?w))"
  proof
    assume a: "fail_after db = None \<or> (\<exists>k\<ge>3. fail_after db = Some k)"
    from check_store_char [of ?s1 ?iid]
    show "(fst ?r \<noteq> Inr () \<longrightarrow> store (snd ?r) = ?w)
          \<and> (fst ?r = Inr () \<longrightarrow>
               store (snd ?r) =
                 (if filter (\<lambda>i. i_id i = ?iid) (intakes (work db)) \<noteq> []
                     \<and> filter (\<lambda>c. ci_intake_id c = ?iid \<and> ci_status c = MISSING)
                          (checklist_items ?w) = []
                  then set_intake_status ?iid DONE ?w else ?w))"
      unfolding shape [OF late [OF a]] st ins by simp
  qed
  show ?thesis
    by (intro conjI early three rest)
qed

theorem reconciliation_commit_states_witness:
  "doc_kind (example_document ''d1'' T4 (Some [(''year'', JStr ''2024'')])) \<noteq> UNKNOWN
   \<and> fst (update_checklist_for_document
        ((example_session [example_intake OPEN] [example_item T4 MISSING 1 0]
            [example_document ''d1'' T4 (Some [(''year'', JStr ''2024'')])])\<lparr>fail_after := Some 3\<rparr>)
        (example_document ''d1'' T4 (Some [(''year'', JStr ''2024'')]))) = Inl OperationalError
   \<and> store (snd (update_checklist_for_document
        ((example_session [example_intake OPEN] [example_item T4 MISSING 1 0]
            [example_document ''d1'' T4 (Some [(''year'', JStr ''2024'')])])\<lparr>fail_after := Some 3\<rparr>)
        (example_document ''d1'' T4 (Some [(''year'', JStr ''2024'')]))))
     = example_db [example_intake OPEN] [example_item T4 RECEIVED 1 1]
         [example_document ''d1'' T4 (Some [(''year'', JStr ''2024'')])]
   \<and> store (snd (update_checklist_for_document
        ((example_session [example_intake OPEN] [example_item T4 MISSING 1 0]
            [example_document ''d1'' T4 (Some [(''year'', JStr ''2024'')])])\<lparr>fail_after := Some 2\<rparr>)
        (example_document ''d1'' T4 (Some [(''year'', JStr ''2024'')]))))
     = example_db [example_intake OPEN] [example_item T4 MISSING 1 0]
         [example_document ''d1'' T4 (Some [(''year'', JStr ''2024'')])]"
proof -
  let ?d = "example_document ''d1'' T4 (Some [(''year'', JStr ''2024'')])"
  let ?db = "example_session [example_intake OPEN] [example_item T4 MISSING 1 0] [?d]"
  have h1: "doc_kind ?d \<noteq> UNKNOWN" by (simp add: example_defs)
  have h2: "truthy (extracted_data ?d)" by (simp add: example_defs)
  have h3: "filter (item_matches ?d) (checklist_items (work (?db\<lparr>fail_after := Some 3\<rparr>))) =
              [example_item T4 MISSING 1 0]"
    by (simp add: example_defs item_matches_def)
  have h3': "filter (item_matches ?d) (checklist_items (work (?db\<lparr>fail_after := Some 2\<rparr>))) =
              [example_item T4 MISSING 1 0]"
    by (simp add: example_defs item_matches_def)
  have w: "item_update ?d (example_item T4 MISSING 1 0) (work (?db\<lparr>fail_after := Some 3\<rparr>)) =
      example_db [example_intake OPEN] [example_item T4 RECEIVED 1 1] [?d]"
    by (simp add: example_defs item_update_def recount_def item_matches_def counted_def Let_def)
  have st: "store (?db\<lparr>fail_after := Some 2\<rparr>) = example_db [example_intake OPEN] [example_item T4 MISSING 1 0] [?d]"
    by (simp add: example_session_def)
  have f3: "fail_after (?db\<lparr>fail_after := Some 3\<rparr>) = Some 3" by simp
  have f2: "fail_after (?db\<lparr>fail_after := Some 2\<rparr>) = Some 2" by simp
  have lt: "(2::nat) < 3" by simp
  have p3: "fst (update_checklist_for_document (?db\<lparr>fail_after := Some 3\<rparr>) ?d) = Inl OperationalError
      \<and> store (snd (update_checklist_for_document (?db\<lparr>fail_after := Some 3\<rparr>) ?d)) =
          item_update ?d (example_item T4 MISSING 1 0) (work (?db\<lparr>fail_after := Some 3\<rparr>))"
    by (rule mp [OF conjunct1 [OF conjunct2 [OF reconciliation_commit_states [OF h1 h2 h3]]] f3])
  have p2: "fst (update_checklist_for_document (?db\<lparr>fail_after := Some 2\<rparr>) ?d) = Inl OperationalError
      \<and> store (snd (update_checklist_for_document (?db\<lparr>fail_after := Some 2\<rparr>) ?d)) =
          store (?db\<lparr>fail_after := Some 2\<rparr>)"
    by (rule conjunct1 [OF reconciliation_commit_states [OF h1 h2 h3'], rule_format, OF lt f2])
  from p3 have q3: "fst (update_checklist_for_document (?db\<lparr>fail_after := Some 3\<rparr>) ?d) = Inl OperationalError"
    by (rule conjunct1)
  from p3 have r3: "store (snd (update_checklist_for_document (?db\<lparr>fail_after := Some 3\<rparr>) ?d)) =
          example_db [example_intake OPEN] [example_item T4 RECEIVED 1 1] [?d]"
    unfolding w by (rule conjunct2)
  from p2 have r2: "store (snd (update_checklist_for_document (?db\<lparr>fail_after := Some 2\<rparr>) ?d)) =
          example_db [example_intake OPEN] [example_item T4 MISSING 1 0] [?d]"
    unfolding st by (rule conjunct2)
  show ?thesis
    by (intro conjI h1 q3 r3 r2)
qed

section \<open>Properties of the intake endpoints\<close>

lemmas client_example_defs = example_client_def example_client_session_def example_intake_data_def

lemmas upload_example_defs = example_lib_def example_file_def example_two_intakes_def

lemma filter_key_distinct:
  "distinct (map f xs) \<Longrightarrow> filter (\<lambda>x. f x = k) xs = [] \<or> (\<exists>x. filter (\<lambda>x. f x = k) xs = [x])"
proof (induction xs)
  case Nil
  then show ?case by simp
next
  case (Cons a xs)
  show ?case
  proof (cases "f a = k")
    case True
    then have "k \<notin> f ` set xs" using Cons.prems by auto
    then have "filter (\<lambda>x. f x = k) xs = []" by (auto simp: filter_empty_conv)
    then show ?thesis using True by simp
  next
    case False
    then show ?thesis using Cons by simp
  qed
qed

lemma save_uploaded_file_valid:
  assumes "int (length (uf_content file)) \<le> MAX_FILE_SIZE"
    and "suffix_lower lib (uf_filename file) \<in> set ALLOWED_EXTENSIONS"
  shows "\<exists>path mime. save_uploaded_file lib file BUCKET_DIR intake_id ALLOWED_EXTENSIONS MAX_FILE_SIZE =
           Inr (uf_content file, path, mime, int (length (uf_content file)))"
  using assms
  by (auto simp: save_uploaded_file_def validate_file_size_def validate_file_type_def Let_def
           split: option.splits list.splits)

subsection \<open>C4: the checklist created with an intake\<close>

text \<open>
  C4. The checklist that \<^verbatim>\<open>create_intake\<close> creates for a complex client has the expected
  quantities 1 (T4), 1 (ID) and 5 (receipts), which add up to 7, while the docstring of
  \<^verbatim>\<open>create_intake\<close> says 8 documents and \<^verbatim>\<open>Client.expected_document_count\<close>, which the
  client endpoint returns, answers 8. For a simple client the sum is 2 and for an average
  client 4, as documented.
\<close>

theorem complex_checklist_expects_seven:
  "sum_list (map quantity_expected (checklist_items (work (snd
      (create_intake ''intake-1'' (\<lambda>k. ''item-1'') example_intake_data
         (example_client_session COMPLEX)))))) = 7
   \<and> expected_document_count (example_client COMPLEX) = 8
   \<and> sum_list (map quantity_expected (checklist_items (work (snd
      (create_intake ''intake-1'' (\<lambda>k. ''item-1'') example_intake_data
         (example_client_session SIMPLE)))))) = 2
   \<and> sum_list (map quantity_expected (checklist_items (work (snd
      (create_intake ''intake-1'' (\<lambda>k. ''item-1'') example_intake_data
         (example_client_session AVERAGE)))))) = 4"
  by (simp add: create_intake_def session_defs flush_def refresh_def Let_def client_example_defs
        initial_checklist_items_def expected_receipt_count_def expected_document_count_def)

subsection \<open>C9: duplicate uploads\<close>

text \<open>
  C9. An upload to an existing intake of a file that passes the size and file-type checks,
  on a database that does not fail and respects the unique index on
  \<open>(intake_id, sha256)\<close>: if a document of that intake already has the SHA-256 of the
  uploaded bytes, the upload is rejected with HTTP 409 (Conflict) and the session is
  unchanged, so no document is created; if no document of that intake has it, the upload
  succeeds and appends one unclassified document with that fingerprint to that intake,
  whatever documents other intakes hold.
\<close>

theorem duplicate_upload_conflict:
  assumes "fail_after db = None"
    and "filter (\<lambda>i. i_id i = intake_id) (intakes (work db)) = [intake]"
    and "int (length (uf_content file)) \<le> MAX_FILE_SIZE"
    and "suffix_lower lib (uf_filename file) \<in> set ALLOWED_EXTENSIONS"
    and "distinct (map (\<lambda>d. (d_intake_id d, sha256 d)) (documents (work db)))"
  shows "((\<exists>d \<in> set (documents (work db)).
             d_intake_id d = intake_id \<and> sha256 d = hexdigest lib (uf_content file)) \<longrightarrow>
          upload_document lib new_id intake_id file db = (Inl (HTTPException 409), db))
       \<and> (\<not> (\<exists>d \<in> set (documents (work db)).
             d_intake_id d = intake_id \<and> sha256 d = hexdigest lib (uf_content file)) \<longrightarrow>
          (\<exists>doc. upload_document lib new_id intake_id file db =
                   (Inr doc, db\<lparr>work := (work db)\<lparr>documents := documents (work db) @ [doc]\<rparr>\<rparr>)
                 \<and> d_id doc = new_id \<and> d_intake_id doc = intake_id
                 \<and> sha256 doc = hexdigest lib (uf_content file)
                 \<and> doc_kind doc = UNKNOWN \<and> extracted_data doc = None))"
proof -
  let ?h = "hexdigest lib (uf_content file)"
  let ?P = "\<lambda>d. d_intake_id d = intake_id \<and> sha256 d = ?h"
  obtain path mime where saved:
    "save_uploaded_file lib file BUCKET_DIR intake_id ALLOWED_EXTENSIONS MAX_FILE_SIZE =
       Inr (uf_content file, path, mime, int (length (uf_content file)))"
    using save_uploaded_file_valid [OF assms(3,4)] by blast
  have P: "?P = (\<lambda>d. (d_intake_id d, sha256 d) = (intake_id, ?h))" by auto
  have shape: "filter ?P (documents (work db)) = [] \<or> (\<exists>x. filter ?P (documents (work db)) = [x])"
    unfolding P using filter_key_distinct [OF assms(5)] by blast
  show ?thesis
  proof (intro conjI impI)
    assume "\<exists>d \<in> set (documents (work db)). ?P d"
    then have "filter ?P (documents (work db)) \<noteq> []" by (auto simp: filter_empty_conv)
    then obtain x where "filter ?P (documents (work db)) = [x]" using shape by blast
    then show "upload_document lib new_id intake_id file db = (Inl (HTTPException 409), db)"
      using assms(1,2) saved
      by (simp add: upload_document_def session_defs calculate_sha256_def Let_def)
  next
    assume "\<not> (\<exists>d \<in> set (documents (work db)). ?P d)"
    then have none: "filter ?P (documents (work db)) = []" by (auto simp: filter_empty_conv)
    then have free: "\<not> (\<exists>d \<in> set (documents (work db)). d_intake_id d = intake_id \<and> sha256 d = ?h)"
      by (auto simp: filter_empty_conv)
    show "\<exists>doc. upload_document lib new_id intake_id file db =
                   (Inr doc, db\<lparr>work := (work db)\<lparr>documents := documents (work db) @ [doc]\<rparr>\<rparr>)
                 \<and> d_id doc = new_id \<and> d_intake_id doc = intake_id
                 \<and> sha256 doc = ?h \<and> doc_kind doc = UNKNOWN \<and> extracted_data doc = None"
      using assms(1,2) saved none free
      by (simp add: upload_document_def flush_new_document_def flush_def refresh_def session_defs
            calculate_sha256_def Let_def)
  qed
qed

theorem duplicate_upload_conflict_witness:
  "upload_document example_lib ''d9'' ''intake-1'' example_file example_two_intakes =
     (Inl (HTTPException 409), example_two_intakes)
   \<and> (\<exists>doc. upload_document example_lib ''d9'' ''intake-2'' example_file example_two_intakes =
          (Inr doc, example_two_intakes\<lparr>work := (work example_two_intakes)
              \<lparr>documents := documents (work example_two_intakes) @ [doc]\<rparr>\<rparr>)
        \<and> d_id doc = ''d9'' \<and> d_intake_id doc = ''intake-2''
        \<and> sha256 doc = hexdigest example_lib (uf_content example_file)
        \<and> doc_kind doc = UNKNOWN \<and> extracted_data doc = None)"
proof -
  let ?db = example_two_intakes
  have h1: "fail_after ?db = None" by (simp add: upload_example_defs example_defs)
  have h2: "filter (\<lambda>i. i_id i = ''intake-1'') (intakes (work ?db)) = [example_intake OPEN]"
    by (simp add: upload_example_defs example_defs)
  have h2': "filter (\<lambda>i. i_id i = ''intake-2'') (intakes (work ?db)) =
      [\<lparr>i_id = ''intake-2'', i_client_id = ''client-1'', fiscal_year = 2024, i_status = OPEN\<rparr>]"
    by (simp add: upload_example_defs example_defs)
  have h3: "int (length (uf_content example_file)) \<le> MAX_FILE_SIZE"
    by (simp add: upload_example_defs MAX_FILE_SIZE_def)
  have h4: "suffix_lower example_lib (uf_filename example_file) \<in> set ALLOWED_EXTENSIONS"
    by (simp add: upload_example_defs ALLOWED_EXTENSIONS_def)
  have h5: "distinct (map (\<lambda>d. (d_intake_id d, sha256 d)) (documents (work ?db)))"
    by (simp add: upload_example_defs example_defs)
  have dup: "\<exists>d \<in> set (documents (work ?db)).
      d_intake_id d = ''intake-1'' \<and> sha256 d = hexdigest example_lib (uf_content example_file)"
    by (simp add: upload_example_defs example_defs)
  have fresh: "\<not> (\<exists>d \<in> set (documents (work ?db)).
      d_intake_id d = ''intake-2'' \<and> sha256 d = hexdigest example_lib (uf_content example_file))"
    by (simp add: upload_example_defs example_defs)
  show ?thesis
    using dup fresh
      duplicate_upload_conflict [OF h1 h2 h3 h4 h5, of "''d9''"]
      duplicate_upload_conflict [OF h1 h2' h3 h4 h5, of "''d9''"]
    by blast
qed

section \<open>The status done is permanent\<close>

lemma holds_round_trip: "holds x s \<Longrightarrow> holds x (snd (round_trip s))"
  by (auto simp: holds_def round_trip_def split: option.splits nat.splits)

lemma holds_execute: "holds x s \<Longrightarrow> holds x (snd (execute s))"
  by (simp add: execute_def holds_round_trip)

lemma holds_refresh: "holds x s \<Longrightarrow> holds x (snd (refresh s))"
  by (simp add: refresh_def holds_round_trip)

lemma holds_commit: "holds x s \<Longrightarrow> holds x (snd (commit s))"
  by (auto simp: holds_def commit_def round_trip_def split: option.splits nat.splits)

lemma holds_rollback: "holds x s \<Longrightarrow> holds x (rollback s)"
  by (simp add: holds_def rollback_def)

lemma holds_flush: "holds x s \<Longrightarrow> holds x (snd (flush s))"
  by (auto simp: holds_def flush_def rollback_def round_trip_def split: option.splits nat.splits)

lemma holds_and_then:
  "holds x (snd r) \<Longrightarrow> (\<And>v s. holds x s \<Longrightarrow> holds x (snd (f v s))) \<Longrightarrow> holds x (snd (and_then r f))"
  by (cases r) (auto simp: and_then_def split: sum.splits)

lemma holds_except_500: "holds x (snd r) \<Longrightarrow> holds x (snd (except_500 r))"
  by (cases r) (auto simp: except_500_def split: sum.splits)

lemma holds_work:
  "holds x s \<Longrightarrow> x \<in> set (intakes w) \<Longrightarrow> holds x (s\<lparr>work := w\<rparr>)"
  by (simp add: holds_def)

lemma holds_work_intakes [simp]:
  "holds x s \<Longrightarrow> x \<in> set (intakes (work s))"
  by (simp add: holds_def)

lemma intakes_update_document [simp]: "intakes (update_document i f db) = intakes db"
  by (simp add: update_document_def)

lemma done_row_kept:
  "i_status x = DONE \<Longrightarrow> x \<in> set (intakes db) \<Longrightarrow> x \<in> set (intakes (set_intake_status iid DONE db))"
proof -
  assume d: "i_status x = DONE" and m: "x \<in> set (intakes db)"
  have "(if i_id x = iid then x\<lparr>i_status := DONE\<rparr> else x) = x"
    using d by (cases x) auto
  then show ?thesis
    using m unfolding set_intake_status_def by (force simp: image_iff)
qed

lemma holds_check:
  assumes "i_status x = DONE" "holds x s"
  shows "holds x (snd (check_and_update_intake_status s iid))"
  unfolding check_and_update_intake_status_def
  using assms
  by (auto intro!: holds_and_then holds_execute holds_commit holds_work done_row_kept
           simp: Let_def split: sum.splits option.splits)

lemma holds_update_checklist:
  assumes "i_status x = DONE" "holds x s"
  shows "holds x (snd (update_checklist_for_document s document))"
  unfolding update_checklist_for_document_def
  using assms
  by (auto intro!: holds_and_then holds_execute holds_commit holds_work holds_check
           simp: Let_def split: sum.splits option.splits)

lemma holds_create_intake:
  assumes "holds x s"
  shows "holds x (snd (create_intake new_id item_ids intake_data s))"
  unfolding create_intake_def
  using assms
  by (auto intro!: holds_and_then holds_execute holds_flush holds_refresh holds_work
           simp: Let_def split: sum.splits option.splits)

lemma holds_flush_new_document:
  assumes "holds x s"
  shows "holds x (snd (flush_new_document d s))"
  unfolding flush_new_document_def
  using assms
  by (auto intro!: holds_and_then holds_flush holds_rollback holds_work simp del: bex_simps)

lemma holds_upload_document:
  assumes "holds x s"
  shows "holds x (snd (upload_document lib new_id intake_id file s))"
proof -
  have inner: "\<And>d s. holds x s \<Longrightarrow>
      holds x (snd (and_then (flush_new_document d s) (\<lambda>_ db. refresh db)))"
    by (intro holds_and_then holds_flush_new_document holds_refresh)
  show ?thesis
    unfolding upload_document_def
    using assms
    apply (intro holds_and_then holds_execute)
     apply assumption
    apply (auto simp: Let_def split: sum.splits option.splits prod.splits error.splits
                intro!: holds_and_then holds_execute)
    apply (metis inner snd_conv)+
    done
qed

lemma holds_classify_document:
  assumes "holds x s"
  shows "holds x (snd (classify_document svc document_id s))"
  unfolding classify_document_def
  using assms
  by (auto intro!: holds_and_then holds_execute holds_commit holds_refresh holds_work holds_except_500
           simp: Let_def split: sum.splits option.splits)

lemma holds_store_extraction:
  assumes "i_status x = DONE" "holds x s"
  shows "holds x (snd (store_extraction document extraction s))"
  unfolding store_extraction_def
  using assms
  by (auto intro!: holds_and_then holds_commit holds_refresh holds_work holds_update_checklist)

lemma holds_extract_document:
  assumes "i_status x = DONE" "holds x s"
  shows "holds x (snd (extract_document svc document_id s))"
  unfolding extract_document_def
  using assms
  by (auto intro!: holds_and_then holds_execute holds_except_500 holds_store_extraction
           simp: Let_def split: sum.splits option.splits)

lemma holds_classify_each:
  "holds x s \<Longrightarrow> holds x (snd (classify_each svc docs classified s))"
proof (induction docs arbitrary: classified s)
  case Nil
  then show ?case by simp
next
  case (Cons d docs)
  then show ?case
    by (auto intro!: Cons.IH holds_work split: sum.splits)
qed

lemma holds_classify_intake_documents:
  assumes "holds x s"
  shows "holds x (snd (classify_intake_documents svc intake_id s))"
proof -
  have loop: "\<And>docs s. holds x s \<Longrightarrow>
      holds x (snd (case classify_each svc docs [] s of
                      (classified, db) \<Rightarrow>
                         and_then (commit db) (\<lambda>_ db.
                           (Inr (intake_id, length classified, classified), db))))"
  proof -
    fix docs s
    assume h: "holds x s"
    obtain c s' where e: "classify_each svc docs [] s = (c, s')" by (cases "classify_each svc docs [] s")
    then have "holds x s'" using holds_classify_each [OF h, of svc docs "[]"] by simp
    then show "holds x (snd (case classify_each svc docs [] s of
                      (classified, db) \<Rightarrow>
                         and_then (commit db) (\<lambda>_ db.
                           (Inr (intake_id, length classified, classified), db))))"
      unfolding e by (auto intro!: holds_and_then holds_commit)
  qed
  show ?thesis
    unfolding classify_intake_documents_def
    using assms
    by (auto intro!: holds_and_then holds_execute loop
           simp: Let_def split: sum.splits option.splits)
qed

lemma holds_extract_each:
  "i_status x = DONE \<Longrightarrow> holds x s \<Longrightarrow> holds x (snd (extract_each svc docs extracted s))"
proof (induction docs arbitrary: extracted s)
  case Nil
  then show ?case by simp
next
  case (Cons d docs)
  have step: "\<And>e. holds x (snd (store_extraction d e s))"
    using Cons.prems by (rule holds_store_extraction)
  show ?case
    using Cons.prems step
    by (auto intro!: Cons.IH split: sum.splits prod.splits) (metis snd_conv)+
qed

lemma holds_extract_intake_documents:
  assumes "i_status x = DONE" "holds x s"
  shows "holds x (snd (extract_intake_documents svc intake_id s))"
proof -
  have loop: "\<And>docs s. holds x s \<Longrightarrow>
      holds x (snd (case extract_each svc docs [] s of
                       (extracted, db) \<Rightarrow> (Inr (intake_id, length extracted, extracted), db)))"
  proof -
    fix docs s
    assume h: "holds x s"
    obtain c s' where e: "extract_each svc docs [] s = (c, s')" by (cases "extract_each svc docs [] s")
    then have "holds x s'" using holds_extract_each [OF assms(1) h, of svc docs "[]"] by simp
    then show "holds x (snd (case extract_each svc docs [] s of
                       (extracted, db) \<Rightarrow> (Inr (intake_id, length extracted, extracted), db)))"
      unfolding e by simp
  qed
  show ?thesis
    unfolding extract_intake_documents_def
    using assms
    by (auto intro!: holds_and_then holds_execute loop
           simp: Let_def split: sum.splits option.splits)
qed

lemma holds_perform:
  assumes "i_status x = DONE" "holds x s"
  shows "holds x (perform op s)"
  using assms
  by (cases op)
     (simp_all add: holds_create_intake holds_upload_document holds_classify_document
        holds_classify_intake_documents holds_extract_document holds_extract_intake_documents
        holds_update_checklist holds_check)

text \<open>
  C10. An intake row whose status is \<open>DONE\<close>, committed and seen by the session, is still
  there unchanged, committed and seen by the session, after any sequence of operations
  (intake creation, upload, classification, extraction, reconciliation, status
  re-evaluation), whatever the model service answers and whichever database calls fail:
  the only assignment to an intake status in these operations writes \<open>DONE\<close>.
  (\<^verbatim>\<open>Intake.update_status\<close>, which can write \<^verbatim>\<open>OPEN\<close>, is called by none of them.)
\<close>

theorem done_is_permanent:
  assumes "i_status x = DONE"
    and "x \<in> set (intakes (store s))" and "x \<in> set (intakes (work s))"
  shows "x \<in> set (intakes (store (run ops s))) \<and> x \<in> set (intakes (work (run ops s)))"
proof -
  have "holds x s \<Longrightarrow> holds x (run ops s)"
  proof (induction ops arbitrary: s)
    case Nil
    then show ?case by simp
  next
    case (Cons op ops)
    then show ?case by (simp add: holds_perform [OF assms(1)])
  qed
  then show ?thesis using assms(2,3) by (simp add: holds_def)
qed

theorem done_is_permanent_witness:
  "i_status (example_intake DONE) = DONE
   \<and> example_intake DONE \<in> set (intakes (store (example_session [example_intake DONE]
        [example_item RECEIPT MISSING 2 0] [example_document ''d1'' RECEIPT (Some [(''total'', JStr ''12.50'')])])))
   \<and> example_intake DONE \<in> set (intakes (store (run
        [UpdateChecklistForDocument (example_document ''d1'' RECEIPT (Some [(''total'', JStr ''12.50'')])),
         CheckAndUpdateIntakeStatus ''intake-1'',
         UploadDocument example_lib ''d9'' ''intake-1'' example_file]
        (example_session [example_intake DONE]
        [example_item RECEIPT MISSING 2 0] [example_document ''d1'' RECEIPT (Some [(''total'', JStr ''12.50'')])]))))
   \<and> example_intake DONE \<in> set (intakes (work (run
        [UpdateChecklistForDocument (example_document ''d1'' RECEIPT (Some [(''total'', JStr ''12.50'')])),
         CheckAndUpdateIntakeStatus ''intake-1'',
         UploadDocument example_lib ''d9'' ''intake-1'' example_file]
        (example_session [example_intake DONE]
        [example_item RECEIPT MISSING 2 0] [example_document ''d1'' RECEIPT (Some [(''total'', JStr ''12.50'')])]))))"
proof -
  let ?s = "example_session [example_intake DONE]
        [example_item RECEIPT MISSING 2 0] [example_document ''d1'' RECEIPT (Some [(''total'', JStr ''12.50'')])]"
  have h1: "i_status (example_intake DONE) = DONE" by (simp add: example_intake_def)
  have h2: "example_intake DONE \<in> set (intakes (store ?s))" by (simp add: example_session_def example_db_def)
  have h3: "example_intake DONE \<in> set (intakes (work ?s))" by (simp add: example_session_def example_db_def)
  show ?thesis
    using h1 h2 done_is_permanent [OF h1 h2 h3] by blast
qed

section \<open>Properties that every operation keeps\<close>

text \<open>
  A property of the rows that each write keeps is kept by every database call, by an
  exception that is passed on and by a rollback.
\<close>

lemma both_round_trip: "both A s \<Longrightarrow> both A (snd (round_trip s))"
  by (auto simp: both_def round_trip_def split: option.splits nat.splits)

lemma both_execute: "both A s \<Longrightarrow> both A (snd (execute s))"
  by (simp add: execute_def both_round_trip)

lemma both_refresh: "both A s \<Longrightarrow> both A (snd (refresh s))"
  by (simp add: refresh_def both_round_trip)

lemma both_commit: "both A s \<Longrightarrow> both A (snd (commit s))"
  by (auto simp: both_def commit_def round_trip_def split: option.splits nat.splits)

lemma both_rollback: "both A s \<Longrightarrow> both A (rollback s)"
  by (simp add: both_def rollback_def)

lemma both_flush: "both A s \<Longrightarrow> both A (snd (flush s))"
  by (auto simp: both_def flush_def rollback_def round_trip_def split: option.splits nat.splits)

lemma both_and_then:
  "both A (snd r) \<Longrightarrow> (\<And>v s. both A s \<Longrightarrow> both A (snd (f v s))) \<Longrightarrow> both A (snd (and_then r f))"
  by (cases r) (auto simp: and_then_def split: sum.splits)

lemma both_except_500: "both A (snd r) \<Longrightarrow> both A (snd (except_500 r))"
  by (cases r) (auto simp: except_500_def split: sum.splits)

lemma both_work: "both A s \<Longrightarrow> A w \<Longrightarrow> both A (s\<lparr>work := w\<rparr>)"
  by (simp add: both_def)

lemma both_workD: "both A s \<Longrightarrow> A (work s)"
  by (simp add: both_def)

lemma both_execute_then:
  assumes "both A s"
    and "\<And>s' :: Session. work s' = work s \<Longrightarrow> store s' = store s \<Longrightarrow> both A (snd (f () s'))"
  shows "both A (snd (and_then (execute s) f))"
  using assms
  by (auto simp: and_then_def execute_def round_trip_def split: option.splits nat.splits)

subsection \<open>C3: an intake without checklist items\<close>

lemma scalar_one_or_none_found:
  "scalar_one_or_none (filter P xs) = Inr (Some y) \<Longrightarrow> P y \<and> y \<in> set xs"
  by (metis filter_eq_ConsD scalar_one_or_none_Some in_set_conv_decomp)

lemma without_items_other_status:
  "without_items x db \<Longrightarrow> iid \<noteq> i_id x \<Longrightarrow> without_items x (set_intake_status iid st db)"
  unfolding without_items_def set_intake_status_def
  by (force simp: image_iff)

lemma without_items_documents:
  "without_items x db \<Longrightarrow> without_items x (db\<lparr>documents := ds\<rparr>)"
  by (simp add: without_items_def)

lemma without_items_update_document:
  "without_items x db \<Longrightarrow> without_items x (update_document i f db)"
  by (simp add: without_items_def update_document_def)

lemma untouched_workD: "both (without_items x) s \<Longrightarrow> without_items x (work s)"
  by (simp add: both_def)

lemma untouched_check:
  assumes "both (without_items x) s" "iid \<noteq> i_id x"
  shows "both (without_items x) (snd (check_and_update_intake_status s iid))"
  unfolding check_and_update_intake_status_def
  using assms
  by (auto intro!: both_and_then both_execute both_commit both_work without_items_other_status
           untouched_workD simp: Let_def split: sum.splits option.splits)

lemma untouched_update_checklist:
  assumes "both (without_items x) s"
  shows "both (without_items x) (snd (update_checklist_for_document s document))"
proof (cases "doc_kind document = UNKNOWN \<or> \<not> truthy (extracted_data document)")
  case True
  then show ?thesis using assms by (simp add: update_checklist_for_document_def)
next
  case False
  have found: "both (without_items x)
      (snd (and_then (execute s1) (\<lambda>_ db.
                let extracted_count = int (length (filter (counted document) (documents (work db))));
                    item1 = ci\<lparr>quantity_received := extracted_count\<rparr>;
                    item2 = (if quantity_received item1 \<ge> quantity_expected item1
                             then item1\<lparr>ci_status := RECEIVED\<rparr> else item1);
                    rows = map (\<lambda>c. if item_matches document c then item2 else c)
                             (checklist_items (work db))
                in and_then (commit (db\<lparr>work := (work db)\<lparr>checklist_items := rows\<rparr>\<rparr>)) (\<lambda>_ db.
                     check_and_update_intake_status db (d_intake_id document)))))"
    if b: "both (without_items x) s1"
      and f: "scalar_one_or_none (filter (item_matches document) (checklist_items (work s1))) = Inr (Some ci)"
    for s1 ci
  proof (rule both_execute_then [OF b])
    fix s2 :: Session
    assume e: "work s2 = work s1" "store s2 = store s1"
    have b2: "both (without_items x) s2" using b e by (simp add: both_def)
    have m: "item_matches document ci" "ci \<in> set (checklist_items (work s1))"
      using scalar_one_or_none_found [OF f] by simp_all
    have w: "without_items x (work s2)" using b2 by (rule both_workD)
    then have ne: "ci_intake_id ci \<noteq> i_id x"
      using m(2) e by (auto simp: without_items_def filter_empty_conv)
    then have d: "d_intake_id document \<noteq> i_id x"
      using m(1) by (simp add: item_matches_def)
    have rows: "without_items x ((work s2)\<lparr>checklist_items :=
                 map (\<lambda>c. if item_matches document c then item2 else c) (checklist_items (work s2))\<rparr>)"
      if "ci_intake_id item2 = ci_intake_id ci" for item2
      using w ne that by (auto simp: without_items_def filter_empty_conv)
    show "both (without_items x) (snd (
                let extracted_count = int (length (filter (counted document) (documents (work s2))));
                    item1 = ci\<lparr>quantity_received := extracted_count\<rparr>;
                    item2 = (if quantity_received item1 \<ge> quantity_expected item1
                             then item1\<lparr>ci_status := RECEIVED\<rparr> else item1);
                    rows = map (\<lambda>c. if item_matches document c then item2 else c)
                             (checklist_items (work s2))
                in and_then (commit (s2\<lparr>work := (work s2)\<lparr>checklist_items := rows\<rparr>\<rparr>)) (\<lambda>_ db.
                     check_and_update_intake_status db (d_intake_id document))))"
      unfolding Let_def
      using b2 d
      by (auto intro!: both_and_then both_commit both_work untouched_check rows)
  qed
  have "both (without_items x)
      (snd (and_then (execute s) (\<lambda>_ db.
          case scalar_one_or_none (filter (item_matches document) (checklist_items (work db))) of
            Inl e \<Rightarrow> (Inl e, db)
          | Inr None \<Rightarrow> (Inr (), db)
          | Inr (Some checklist_item) \<Rightarrow>
              and_then (execute db) (\<lambda>_ db.
                let extracted_count = int (length (filter (counted document) (documents (work db))));
                    item1 = checklist_item\<lparr>quantity_received := extracted_count\<rparr>;
                    item2 = (if quantity_received item1 \<ge> quantity_expected item1
                             then item1\<lparr>ci_status := RECEIVED\<rparr> else item1);
                    rows = map (\<lambda>c. if item_matches document c then item2 else c)
                             (checklist_items (work db))
                in and_then (commit (db\<lparr>work := (work db)\<lparr>checklist_items := rows\<rparr>\<rparr>)) (\<lambda>_ db.
                     check_and_update_intake_status db (d_intake_id document))))))"
  proof (rule both_execute_then [OF assms])
    fix s1 :: Session
    assume e: "work s1 = work s" "store s1 = store s"
    then have b1: "both (without_items x) s1" using assms by (simp add: both_def)
    show "both (without_items x)
      (snd (case scalar_one_or_none (filter (item_matches document) (checklist_items (work s1))) of
            Inl e \<Rightarrow> (Inl e, s1)
          | Inr None \<Rightarrow> (Inr (), s1)
          | Inr (Some checklist_item) \<Rightarrow>
              and_then (execute s1) (\<lambda>_ db.
                let extracted_count = int (length (filter (counted document) (documents (work db))));
                    item1 = checklist_item\<lparr>quantity_received := extracted_count\<rparr>;
                    item2 = (if quantity_received item1 \<ge> quantity_expected item1
                             then item1\<lparr>ci_status := RECEIVED\<rparr> else item1);
                    rows = map (\<lambda>c. if item_matches document c then item2 else c)
                             (checklist_items (work db))
                in and_then (commit (db\<lparr>work := (work db)\<lparr>checklist_items := rows\<rparr>\<rparr>)) (\<lambda>_ db.
                     check_and_update_intake_status db (d_intake_id document)))))"
    proof (cases "scalar_one_or_none (filter (item_matches document) (checklist_items (work s1)))")
      case (Inl e)
      then show ?thesis using b1 by simp
    next
      case (Inr r)
      show ?thesis
      proof (cases r)
        case None
        then show ?thesis using b1 Inr by simp
      next
        case (Some ci)
        then have f: "scalar_one_or_none (filter (item_matches document) (checklist_items (work s1))) = Inr (Some ci)"
          using Inr by simp
        show ?thesis
          unfolding f using found [OF b1 f] by simp
      qed
    qed
  qed
  then show ?thesis
    unfolding update_checklist_for_document_def using False by simp
qed

lemma without_items_new_intake:
  "without_items x db \<Longrightarrow> without_items x (db\<lparr>intakes := intakes db @ [n]\<rparr>)"
  by (simp add: without_items_def)

lemma without_items_new_items:
  "without_items x db \<Longrightarrow> new_id \<noteq> i_id x \<Longrightarrow>
   without_items x (db\<lparr>checklist_items := checklist_items db @ initial_checklist_items item_ids new_id client\<rparr>)"
  by (auto simp: without_items_def initial_checklist_items_def Let_def)

lemma untouched_create_intake:
  assumes "both (without_items x) s" "new_id \<noteq> i_id x"
  shows "both (without_items x) (snd (create_intake new_id item_ids intake_data s))"
  unfolding create_intake_def
  using assms
  by (auto intro!: both_and_then both_execute both_flush both_refresh both_work
             without_items_new_intake without_items_new_items untouched_workD
           simp: Let_def split: sum.splits option.splits)

lemma untouched_flush_new_document:
  assumes "both (without_items x) s"
  shows "both (without_items x) (snd (flush_new_document d s))"
  unfolding flush_new_document_def
  using assms
  by (auto intro!: both_and_then both_flush both_rollback both_work without_items_documents untouched_workD
           simp del: bex_simps)

lemma untouched_upload_document:
  assumes "both (without_items x) s"
  shows "both (without_items x) (snd (upload_document lib new_id intake_id file s))"
proof -
  have inner: "\<And>d s. both (without_items x) s \<Longrightarrow>
      both (without_items x) (snd (and_then (flush_new_document d s) (\<lambda>_ db. refresh db)))"
    by (intro both_and_then untouched_flush_new_document both_refresh)
  show ?thesis
    unfolding upload_document_def
    using assms
    apply (intro both_and_then both_execute)
     apply assumption
    apply (auto simp: Let_def split: sum.splits option.splits prod.splits error.splits
                intro!: both_and_then both_execute)
    apply (metis inner snd_conv)+
    done
qed

lemma untouched_classify_document:
  assumes "both (without_items x) s"
  shows "both (without_items x) (snd (classify_document svc document_id s))"
  unfolding classify_document_def
  using assms
  by (auto intro!: both_and_then both_execute both_commit both_refresh both_work both_except_500
             without_items_update_document untouched_workD
           simp: Let_def split: sum.splits option.splits)

lemma untouched_store_extraction:
  assumes "both (without_items x) s"
  shows "both (without_items x) (snd (store_extraction document extraction s))"
  unfolding store_extraction_def
  using assms
  by (auto intro!: both_and_then both_commit both_refresh both_work untouched_update_checklist
             without_items_update_document untouched_workD)

lemma untouched_extract_document:
  assumes "both (without_items x) s"
  shows "both (without_items x) (snd (extract_document svc document_id s))"
  unfolding extract_document_def
  using assms
  by (auto intro!: both_and_then both_execute both_except_500 untouched_store_extraction
           simp: Let_def split: sum.splits option.splits)

lemma untouched_classify_each:
  "both (without_items x) s \<Longrightarrow> both (without_items x) (snd (classify_each svc docs classified s))"
proof (induction docs arbitrary: classified s)
  case Nil
  then show ?case by simp
next
  case (Cons d docs)
  then show ?case
    by (auto intro!: Cons.IH both_work without_items_update_document untouched_workD split: sum.splits)
qed

lemma untouched_classify_intake_documents:
  assumes "both (without_items x) s"
  shows "both (without_items x) (snd (classify_intake_documents svc intake_id s))"
proof -
  have loop: "\<And>docs s. both (without_items x) s \<Longrightarrow>
      both (without_items x) (snd (case classify_each svc docs [] s of
                      (classified, db) \<Rightarrow>
                         and_then (commit db) (\<lambda>_ db.
                           (Inr (intake_id, length classified, classified), db))))"
  proof -
    fix docs s
    assume h: "both (without_items x) s"
    obtain c s' where e: "classify_each svc docs [] s = (c, s')" by (cases "classify_each svc docs [] s")
    then have "both (without_items x) s'" using untouched_classify_each [OF h, of svc docs "[]"] by simp
    then show "both (without_items x) (snd (case classify_each svc docs [] s of
                      (classified, db) \<Rightarrow>
                         and_then (commit db) (\<lambda>_ db.
                           (Inr (intake_id, length classified, classified), db))))"
      unfolding e by (auto intro!: both_and_then both_commit)
  qed
  show ?thesis
    unfolding classify_intake_documents_def
    using assms
    by (auto intro!: both_and_then both_execute loop
           simp: Let_def split: sum.splits option.splits)
qed

lemma untouched_extract_each:
  "both (without_items x) s \<Longrightarrow> both (without_items x) (snd (extract_each svc docs extracted s))"
proof (induction docs arbitrary: extracted s)
  case Nil
  then show ?case by simp
next
  case (Cons d docs)
  have step: "\<And>e. both (without_items x) (snd (store_extraction d e s))"
    using Cons.prems by (rule untouched_store_extraction)
  show ?case
    using Cons.prems step
    by (auto intro!: Cons.IH split: sum.splits prod.splits) (metis snd_conv)+
qed

lemma untouched_extract_intake_documents:
  assumes "both (without_items x) s"
  shows "both (without_items x) (snd (extract_intake_documents svc intake_id s))"
proof -
  have loop: "\<And>docs s. both (without_items x) s \<Longrightarrow>
      both (without_items x) (snd (case extract_each svc docs [] s of
                       (extracted, db) \<Rightarrow> (Inr (intake_id, length extracted, extracted), db)))"
  proof -
    fix docs s
    assume h: "both (without_items x) s"
    obtain c s' where e: "extract_each svc docs [] s = (c, s')" by (cases "extract_each svc docs [] s")
    then have "both (without_items x) s'" using untouched_extract_each [OF h, of svc docs "[]"] by simp
    then show "both (without_items x) (snd (case extract_each svc docs [] s of
                       (extracted, db) \<Rightarrow> (Inr (intake_id, length extracted, extracted), db)))"
      unfolding e by simp
  qed
  show ?thesis
    unfolding extract_intake_documents_def
    using assms
    by (auto intro!: both_and_then both_execute loop
           simp: Let_def split: sum.splits option.splits)
qed

lemma untouched_perform:
  assumes "both (without_items x) s" "program_call (i_id x) op"
  shows "both (without_items x) (perform op s)"
  using assms
  by (cases op)
     (simp_all add: untouched_create_intake untouched_upload_document untouched_classify_document
        untouched_classify_intake_documents untouched_extract_document untouched_extract_intake_documents
        untouched_update_checklist)

lemma untouched_run:
  "both (without_items x) s \<Longrightarrow> list_all (program_call (i_id x)) ops \<Longrightarrow>
   both (without_items x) (run ops s)"
  by (induction ops arbitrary: s) (simp_all add: untouched_perform)

lemma without_items_not_complete: "without_items x db \<Longrightarrow> \<not> intake_is_complete db x"
  by (simp add: without_items_def intake_is_complete_def)

text \<open>
  C3. An intake with zero checklist items is not complete (\<^verbatim>\<open>Intake.is_complete\<close> is false),
  and no sequence of operations of the program changes that or touches its row: intake
  creation (of other intakes), upload, classification, extraction and the reconciliation
  they trigger leave the row as it is, committed and in the session, so an open intake
  without checklist items stays open, whatever the model service answers and whichever
  database calls fail. The status re-evaluation is reached only from a reconciliation that
  has located a checklist item of the same intake.
\<close>

theorem empty_checklist_stays_open:
  assumes "without_items x (store s)" and "without_items x (work s)"
    and "list_all (program_call (i_id x)) ops"
  shows "\<not> intake_is_complete (work s) x
       \<and> \<not> intake_is_complete (store (run ops s)) x
       \<and> \<not> intake_is_complete (work (run ops s)) x
       \<and> x \<in> set (intakes (store (run ops s))) \<and> x \<in> set (intakes (work (run ops s)))
       \<and> without_items x (store (run ops s)) \<and> without_items x (work (run ops s))"
proof -
  have "both (without_items x) s" using assms(1,2) by (simp add: both_def)
  then have "both (without_items x) (run ops s)" using assms(3) by (rule untouched_run)
  then have r: "without_items x (store (run ops s))" "without_items x (work (run ops s))"
    by (simp_all add: both_def)
  then have "x \<in> set (intakes (store (run ops s)))" "x \<in> set (intakes (work (run ops s)))"
    by (simp_all add: without_items_def)
  then show ?thesis
    using assms(2) r by (simp add: without_items_not_complete)
qed

theorem empty_checklist_stays_open_witness:
  "without_items (example_intake OPEN)
     (store (example_session [example_intake OPEN] [] [example_document ''d1'' T4 (Some [(''year'', JStr ''2024'')])]))
   \<and> list_all (program_call (i_id (example_intake OPEN)))
        [UpdateChecklistForDocument (example_document ''d1'' T4 (Some [(''year'', JStr ''2024'')])),
         UploadDocument example_lib ''d9'' ''intake-1'' example_file]
   \<and> \<not> intake_is_complete
        (store (run [UpdateChecklistForDocument (example_document ''d1'' T4 (Some [(''year'', JStr ''2024'')])),
                     UploadDocument example_lib ''d9'' ''intake-1'' example_file]
           (example_session [example_intake OPEN] [] [example_document ''d1'' T4 (Some [(''year'', JStr ''2024'')])])))
        (example_intake OPEN)
   \<and> example_intake OPEN \<in> set (intakes
        (store (run [UpdateChecklistForDocument (example_document ''d1'' T4 (Some [(''year'', JStr ''2024'')])),
                     UploadDocument example_lib ''d9'' ''intake-1'' example_file]
           (example_session [example_intake OPEN] [] [example_document ''d1'' T4 (Some [(''year'', JStr ''2024'')])]))))"
proof -
  let ?d = "example_document ''d1'' T4 (Some [(''year'', JStr ''2024'')])"
  let ?s = "example_session [example_intake OPEN] [] [?d]"
  let ?ops = "[UpdateChecklistForDocument ?d, UploadDocument example_lib ''d9'' ''intake-1'' example_file]"
  have h1: "without_items (example_intake OPEN) (store ?s)"
    by (simp add: without_items_def example_session_def example_db_def)
  have h2: "without_items (example_intake OPEN) (work ?s)"
    by (simp add: without_items_def example_session_def example_db_def)
  have h3: "list_all (program_call (i_id (example_intake OPEN))) ?ops" by simp
  show ?thesis
    using h1 h3 empty_checklist_stays_open [OF h1 h2 h3] by blast
qed

text \<open>
  The guard is in the call site, not in the function: called on its own for an intake without
  checklist items, \<^verbatim>\<open>check_and_update_intake_status\<close> finds no item that is missing and
  commits \<open>DONE\<close>.
\<close>

lemma direct_reevaluation_of_empty_checklist:
  "map i_status (intakes (store (snd (check_and_update_intake_status
         (example_session [example_intake OPEN] [] []) ''intake-1'')))) = [DONE]"
  by (simp add: example_defs service_defs session_defs Let_def)

subsection \<open>Stored extraction results are null or not empty\<close>

text \<open>
  Every operation keeps the stored extraction results null or not empty, as long as the
  extractions answer dictionaries that are not empty.
\<close>

lemma nem_workD: "both no_empty_maps s \<Longrightarrow> no_empty_maps (work s)"
  by (simp add: both_def)

lemma nem_same_documents:
  "no_empty_maps db \<Longrightarrow> documents db' = documents db \<Longrightarrow> no_empty_maps db'"
  by (simp add: no_empty_maps_def)

lemma nem_set_intake_status: "no_empty_maps db \<Longrightarrow> no_empty_maps (set_intake_status iid st db)"
  by (simp add: no_empty_maps_def)

lemma nem_checklist_items: "no_empty_maps db \<Longrightarrow> no_empty_maps (db\<lparr>checklist_items := cs\<rparr>)"
  by (simp add: no_empty_maps_def)

lemma nem_intakes: "no_empty_maps db \<Longrightarrow> no_empty_maps (db\<lparr>intakes := ins\<rparr>)"
  by (simp add: no_empty_maps_def)

lemma nem_new_document:
  "no_empty_maps db \<Longrightarrow> extracted_data d = None \<Longrightarrow> no_empty_maps (db\<lparr>documents := documents db @ [d]\<rparr>)"
  by (auto simp: no_empty_maps_def)

lemma nem_doc_kind:
  "no_empty_maps db \<Longrightarrow> no_empty_maps (update_document i (\<lambda>d. d\<lparr>doc_kind := k\<rparr>) db)"
  by (auto simp: no_empty_maps_def update_document_def)

lemma nem_extraction:
  "no_empty_maps db \<Longrightarrow> extraction \<noteq> [] \<Longrightarrow>
   no_empty_maps (update_document i (\<lambda>d. d\<lparr>extracted_data := Some extraction\<rparr>) db)"
  by (auto simp: no_empty_maps_def update_document_def)

lemma nem_check:
  assumes "both no_empty_maps s"
  shows "both no_empty_maps (snd (check_and_update_intake_status s iid))"
  unfolding check_and_update_intake_status_def
  using assms
  by (auto intro!: both_and_then both_execute both_commit both_work nem_set_intake_status nem_workD
           simp: Let_def split: sum.splits option.splits)

lemma nem_update_checklist:
  assumes "both no_empty_maps s"
  shows "both no_empty_maps (snd (update_checklist_for_document s document))"
  unfolding update_checklist_for_document_def
  using assms
  by (auto intro!: both_and_then both_execute both_commit both_work nem_check nem_checklist_items nem_workD
           simp: Let_def split: sum.splits option.splits)

lemma nem_create_intake:
  assumes "both no_empty_maps s"
  shows "both no_empty_maps (snd (create_intake new_id item_ids intake_data s))"
  unfolding create_intake_def
  using assms
  by (auto intro!: both_and_then both_execute both_flush both_refresh both_work
             nem_checklist_items nem_intakes nem_workD
           simp: Let_def split: sum.splits option.splits)

lemma nem_flush_new_document:
  assumes "both no_empty_maps s" "extracted_data d = None"
  shows "both no_empty_maps (snd (flush_new_document d s))"
  unfolding flush_new_document_def
  using assms
  by (auto intro!: both_and_then both_flush both_rollback both_work nem_new_document nem_workD
           simp del: bex_simps)

lemma nem_upload_document:
  assumes "both no_empty_maps s"
  shows "both no_empty_maps (snd (upload_document lib new_id intake_id file s))"
proof -
  have inner: "\<And>d s. both no_empty_maps s \<Longrightarrow> extracted_data d = None \<Longrightarrow>
      both no_empty_maps (snd (and_then (flush_new_document d s) (\<lambda>_ db. refresh db)))"
    by (intro both_and_then nem_flush_new_document both_refresh)
  show ?thesis
    unfolding upload_document_def
    using assms
    apply (intro both_and_then both_execute)
     apply assumption
    apply (auto simp: Let_def split: sum.splits option.splits prod.splits error.splits
                intro!: both_and_then both_execute)
    apply (metis (no_types, lifting) inner snd_conv Document.select_convs(9))+
    done
qed

lemma nem_classify_document:
  assumes "both no_empty_maps s"
  shows "both no_empty_maps (snd (classify_document svc document_id s))"
  unfolding classify_document_def
  using assms
  by (auto intro!: both_and_then both_execute both_commit both_refresh both_work both_except_500
             nem_doc_kind nem_workD
           simp: Let_def split: sum.splits option.splits)

lemma nem_store_extraction:
  assumes "both no_empty_maps s" "extraction \<noteq> []"
  shows "both no_empty_maps (snd (store_extraction document extraction s))"
  unfolding store_extraction_def
  using assms
  by (auto intro!: both_and_then both_commit both_refresh both_work nem_update_checklist
             nem_extraction nem_workD)

lemma nem_extract_document:
  assumes "both no_empty_maps s" "dumps_fields svc"
  shows "both no_empty_maps (snd (extract_document svc document_id s))"
  unfolding extract_document_def
  using assms
  by (auto intro!: both_and_then both_execute both_except_500 nem_store_extraction
           simp: Let_def dumps_fields_def split: sum.splits option.splits if_splits)

lemma nem_classify_each:
  "both no_empty_maps s \<Longrightarrow> both no_empty_maps (snd (classify_each svc docs classified s))"
proof (induction docs arbitrary: classified s)
  case Nil
  then show ?case by simp
next
  case (Cons d docs)
  then show ?case
    by (auto intro!: Cons.IH both_work nem_doc_kind nem_workD split: sum.splits)
qed

lemma nem_classify_intake_documents:
  assumes "both no_empty_maps s"
  shows "both no_empty_maps (snd (classify_intake_documents svc intake_id s))"
proof -
  have loop: "\<And>docs s. both no_empty_maps s \<Longrightarrow>
      both no_empty_maps (snd (case classify_each svc docs [] s of
                      (classified, db) \<Rightarrow>
                         and_then (commit db) (\<lambda>_ db.
                           (Inr (intake_id, length classified, classified), db))))"
  proof -
    fix docs s
    assume h: "both no_empty_maps s"
    obtain c s' where e: "classify_each svc docs [] s = (c, s')" by (cases "classify_each svc docs [] s")
    then have "both no_empty_maps s'" using nem_classify_each [OF h, of svc docs "[]"] by simp
    then show "both no_empty_maps (snd (case classify_each svc docs [] s of
                      (classified, db) \<Rightarrow>
                         and_then (commit db) (\<lambda>_ db.
                           (Inr (intake_id, length classified, classified), db))))"
      unfolding e by (auto intro!: both_and_then both_commit)
  qed
  show ?thesis
    unfolding classify_intake_documents_def
    using assms
    by (auto intro!: both_and_then both_execute loop
           simp: Let_def split: sum.splits option.splits)
qed

lemma nem_extract_each:
  "dumps_fields svc \<Longrightarrow> both no_empty_maps s \<Longrightarrow>
   both no_empty_maps (snd (extract_each svc docs extracted s))"
proof (induction docs arbitrary: extracted s)
  case Nil
  then show ?case by simp
next
  case (Cons d docs)
  have step: "\<And>e. e \<noteq> [] \<Longrightarrow> both no_empty_maps (snd (store_extraction d e s))"
    using Cons.prems(2) by (rule nem_store_extraction)
  have ne: "\<And>e. extract_t4 svc (stored_path d) = Inr e \<Longrightarrow> e \<noteq> []"
    "\<And>e. extract_id svc (stored_path d) = Inr e \<Longrightarrow> e \<noteq> []"
    "\<And>e. extract_receipt svc (stored_path d) = Inr e \<Longrightarrow> e \<noteq> []"
    using Cons.prems(1) by (auto simp: dumps_fields_def)
  show ?case
    using Cons.prems step ne
    by (auto intro!: Cons.IH split: sum.splits prod.splits if_splits) (metis snd_conv)+
qed

lemma nem_extract_intake_documents:
  assumes "both no_empty_maps s" "dumps_fields svc"
  shows "both no_empty_maps (snd (extract_intake_documents svc intake_id s))"
proof -
  have loop: "\<And>docs s. both no_empty_maps s \<Longrightarrow>
      both no_empty_maps (snd (case extract_each svc docs [] s of
                       (extracted, db) \<Rightarrow> (Inr (intake_id, length extracted, extracted), db)))"
  proof -
    fix docs s
    assume h: "both no_empty_maps s"
    obtain c s' where e: "extract_each svc docs [] s = (c, s')" by (cases "extract_each svc docs [] s")
    then have "both no_empty_maps s'" using nem_extract_each [OF assms(2) h, of docs "[]"] by simp
    then show "both no_empty_maps (snd (case extract_each svc docs [] s of
                       (extracted, db) \<Rightarrow> (Inr (intake_id, length extracted, extracted), db)))"
      unfolding e by simp
  qed
  show ?thesis
    unfolding extract_intake_documents_def
    using assms
    by (auto intro!: both_and_then both_execute loop
           simp: Let_def split: sum.splits option.splits)
qed

lemma nem_perform:
  assumes "both no_empty_maps s" "model_dumps op"
  shows "both no_empty_maps (perform op s)"
  using assms
  by (cases op)
     (simp_all add: nem_create_intake nem_upload_document nem_classify_document
        nem_classify_intake_documents nem_extract_document nem_extract_intake_documents
        nem_update_checklist nem_check)

lemma no_empty_maps_reachable:
  "both no_empty_maps s \<Longrightarrow> list_all model_dumps ops \<Longrightarrow> both no_empty_maps (run ops s)"
  by (induction ops arbitrary: s) (simp_all add: nem_perform)

end
